theory Spec2Isabelle
  imports Main "HOL-Library.Sublist"
begin

section \<open>Data model\<close>

text \<open>
  \<^verbatim>\<open>schema/message.go\<close>: the role enumeration and the message struct. A Go \<^verbatim>\<open>error\<close>
  value is represented by the text its \<^verbatim>\<open>Error()\<close> method returns; \<open>None\<close> is the nil error.
\<close>

type_synonym error = string

datatype Role = RoleUser | RoleSystem | RoleAssistant | RoleTool

record Message =
  Role :: Role
  Content :: string

text \<open>
  A decoded \<^verbatim>\<open>interface{}\<close> value as \<^verbatim>\<open>encoding/json\<close> produces it. An object
  (\<^verbatim>\<open>map[string]interface{}\<close>) is an association list read with \<open>map_of\<close>.
\<close>

datatype json =
    JNull
  | JBool bool
  | JNum int
  | JStr string
  | JArr "json list"
  | JObj "(string \<times> json) list"

type_synonym jobject = "(string \<times> json) list"

text \<open>The type assertions \<^verbatim>\<open>x.(string)\<close> and \<^verbatim>\<open>x.(map[string]interface{})\<close> on the
  result of a map index expression; a missing key is the nil interface, on which both fail.\<close>

fun asString :: "json option \<Rightarrow> string option" where
  "asString (Some (JStr s)) = Some s"
| "asString _ = None"

fun asMap :: "json option \<Rightarrow> jobject option" where
  "asMap (Some (JObj m)) = Some m"
| "asMap _ = None"

section \<open>A reference JSON decoder\<close>

text \<open>
  \<^verbatim>\<open>json.Unmarshal\<close> belongs to Go's standard library, so the functions below take the
  decoder as an argument and the general theorems hold for every decoder. Concrete inputs
  are decoded with \<open>decodeJSON\<close>, a decoder for JSON texts made of objects, arrays, strings
  with the one-letter escapes, integer literals, \<^verbatim>\<open>true\<close>, \<^verbatim>\<open>false\<close> and \<^verbatim>\<open>null\<close>.
  As \<^verbatim>\<open>json.Unmarshal\<close> into a \<^verbatim>\<open>map[string]interface{}\<close> does, it accepts a top-level
  object or \<^verbatim>\<open>null\<close> only, and the last of several equal keys wins. It agrees with
  \<^verbatim>\<open>json.Unmarshal\<close> on these texts only: a number with a fraction or an exponent and a
  string with an escape by four hexadecimal digits are valid JSON that Go decodes and
  that \<open>decodeJSON\<close> refuses. Every text decoded below is free of both.
\<close>

definition is_ws :: "char \<Rightarrow> bool" where
  "is_ws c = (c = CHR '' '' \<or> c = CHR 0x09 \<or> c = CHR 0x0A \<or> c = CHR 0x0D)"

definition skip_ws :: "string \<Rightarrow> string" where
  "skip_ws s = dropWhile is_ws s"

definition is_digit :: "char \<Rightarrow> bool" where
  "is_digit c = (c \<in> set ''0123456789'')"

definition digit_val :: "char \<Rightarrow> nat" where
  "digit_val c = of_char c - 48"

definition unescape :: "char \<Rightarrow> char option" where
  "unescape e =
     (if e = CHR 0x22 then Some (CHR 0x22)
      else if e = CHR 0x5C then Some (CHR 0x5C)
      else if e = CHR ''/'' then Some (CHR ''/'')
      else if e = CHR ''n'' then Some (CHR 0x0A)
      else if e = CHR ''r'' then Some (CHR 0x0D)
      else if e = CHR ''t'' then Some (CHR 0x09)
      else if e = CHR ''b'' then Some (CHR 0x08)
      else if e = CHR ''f'' then Some (CHR 0x0C)
      else None)"

text \<open>\<open>parse_str\<close> reads a string literal after its opening quote.\<close>

fun parse_str :: "string \<Rightarrow> (string \<times> string) option" where
  "parse_str [] = None"
| "parse_str [c] = (if c = CHR 0x22 then Some ([], []) else None)"
| "parse_str (c # e # es) =
     (if c = CHR 0x22 then Some ([], e # es)
      else if c = CHR 0x5C then
        (case unescape e of
           None \<Rightarrow> None
         | Some d \<Rightarrow> map_option (\<lambda>(t, r). (d # t, r)) (parse_str es))
      else if (of_char c :: nat) < 32 then None
      else map_option (\<lambda>(t, r). (c # t, r)) (parse_str (e # es)))"

definition parse_int :: "string \<Rightarrow> (int \<times> string) option" where
  "parse_int s =
     (let neg = (s \<noteq> [] \<and> hd s = CHR ''-'');
          s1 = (if neg then tl s else s);
          ds = takeWhile is_digit s1;
          r = dropWhile is_digit s1;
          n = int (foldl (\<lambda>a d. 10 * a + digit_val d) 0 ds)
      in if ds = [] \<or> (1 < length ds \<and> hd ds = CHR ''0'') \<or> (r \<noteq> [] \<and> hd r \<in> set ''.eE'')
         then None
         else Some (if neg then - n else n, r))"

definition put_member :: "string \<Rightarrow> json \<Rightarrow> jobject \<Rightarrow> jobject" where
  "put_member k v m = (if map_of m k = None then (k, v) # m else m)"

fun parse_value :: "nat \<Rightarrow> string \<Rightarrow> (json \<times> string) option"
  and parse_elems :: "nat \<Rightarrow> string \<Rightarrow> (json list \<times> string) option"
  and parse_members :: "nat \<Rightarrow> string \<Rightarrow> (jobject \<times> string) option"
where
  "parse_value 0 s = None"
| "parse_value (Suc n) s =
     (case skip_ws s of
        [] \<Rightarrow> None
      | c # cs \<Rightarrow>
          if c = CHR ''{'' then
            (if skip_ws cs \<noteq> [] \<and> hd (skip_ws cs) = CHR ''}''
             then Some (JObj [], tl (skip_ws cs))
             else map_option (\<lambda>(m, r). (JObj m, r)) (parse_members n cs))
          else if c = CHR ''['' then
            (if skip_ws cs \<noteq> [] \<and> hd (skip_ws cs) = CHR '']''
             then Some (JArr [], tl (skip_ws cs))
             else map_option (\<lambda>(vs, r). (JArr vs, r)) (parse_elems n cs))
          else if c = CHR 0x22 then map_option (\<lambda>(t, r). (JStr t, r)) (parse_str cs)
          else if prefix ''true'' (c # cs) then Some (JBool True, drop 4 (c # cs))
          else if prefix ''false'' (c # cs) then Some (JBool False, drop 5 (c # cs))
          else if prefix ''null'' (c # cs) then Some (JNull, drop 4 (c # cs))
          else map_option (\<lambda>(i, r). (JNum i, r)) (parse_int (c # cs)))"
| "parse_elems 0 s = None"
| "parse_elems (Suc n) s =
     (case parse_value n s of
        None \<Rightarrow> None
      | Some (v, r) \<Rightarrow>
          (case skip_ws r of
             [] \<Rightarrow> None
           | c # r1 \<Rightarrow>
               if c = CHR '','' then map_option (\<lambda>(vs, r2). (v # vs, r2)) (parse_elems n r1)
               else if c = CHR '']'' then Some ([v], r1)
               else None))"
| "parse_members 0 s = None"
| "parse_members (Suc n) s =
     (case skip_ws s of
        [] \<Rightarrow> None
      | c # cs \<Rightarrow>
          if c \<noteq> CHR 0x22 then None
          else
            (case parse_str cs of
               None \<Rightarrow> None
             | Some (k, r) \<Rightarrow>
                 (case skip_ws r of
                    [] \<Rightarrow> None
                  | d # r1 \<Rightarrow>
                      if d \<noteq> CHR '':'' then None
                      else
                        (case parse_value n r1 of
                           None \<Rightarrow> None
                         | Some (v, r2) \<Rightarrow>
                             (case skip_ws r2 of
                                [] \<Rightarrow> None
                              | e # r3 \<Rightarrow>
                                  if e = CHR '','' then
                                    map_option (\<lambda>(m, r4). (put_member k v m, r4))
                                      (parse_members n r3)
                                  else if e = CHR ''}'' then Some ([(k, v)], r3)
                                  else None)))))"

definition decodeJSON :: "string \<Rightarrow> jobject option" where
  "decodeJSON s =
     (case parse_value (Suc (length s)) s of
        Some (JObj m, r) \<Rightarrow> if skip_ws r = [] then Some m else None
      | Some (JNull, r) \<Rightarrow> if skip_ws r = [] then Some [] else None
      | _ \<Rightarrow> None)"

section \<open>Tool-call parsing\<close>

text \<open>
  \<^verbatim>\<open>parseToolCall\<close> returns an anonymous struct \<^verbatim>\<open>{Name string; Args map[string]interface{}}\<close>
  and a flag. \<open>call_Args = None\<close> is the nil map. The first argument is \<^verbatim>\<open>json.Unmarshal\<close>
  into a \<^verbatim>\<open>map[string]interface{}\<close>: \<open>None\<close> when it returns an error.
\<close>

record ToolCall =
  call_Name :: string
  call_Args :: "jobject option"

definition zero_ToolCall :: ToolCall where
  "zero_ToolCall = \<lparr>call_Name = [], call_Args = None\<rparr>"

definition parseToolCall :: "(string \<Rightarrow> jobject option) \<Rightarrow> string \<Rightarrow> ToolCall \<times> bool" where
  "parseToolCall unmarshal content =
     (case unmarshal content of
        Some raw \<Rightarrow>
          (let name = [];
               name = (case asString (map_of raw ''tool'') of Some v \<Rightarrow> v | None \<Rightarrow> name);
               name = (case asString (map_of raw ''name'') of
                         Some v \<Rightarrow> if name = [] then v else name
                       | None \<Rightarrow> name);
               name = (case asMap (map_of raw ''function'') of
                         Some fn \<Rightarrow>
                           if name = [] then
                             (case asString (map_of fn ''name'') of Some v \<Rightarrow> v | None \<Rightarrow> name)
                           else name
                       | None \<Rightarrow> name);
               args = (case asMap (map_of raw ''arguments'') of
                         Some v \<Rightarrow> Some v
                       | None \<Rightarrow>
                           (case asMap (map_of raw ''args'') of
                              Some v \<Rightarrow> Some v
                            | None \<Rightarrow>
                                (case asMap (map_of raw ''input'') of
                                   Some v \<Rightarrow> Some v
                                 | None \<Rightarrow> None)))
           in if name \<noteq> [] then (\<lparr>call_Name = name, call_Args = args\<rparr>, True)
              else (zero_ToolCall, False))
      | None \<Rightarrow> (zero_ToolCall, False))"

subsection \<open>The parsing rule as the specification words it\<close>

text \<open>
  The candidates of the name field in priority order, and those of the arguments field.
  A name candidate matches when it is a non-empty string, an arguments candidate when it
  is an object; the first match wins.
\<close>

definition name_aliases :: "jobject \<Rightarrow> string option list" where
  "name_aliases raw =
     [asString (map_of raw ''tool''),
      asString (map_of raw ''name''),
      (case asMap (map_of raw ''function'') of
         Some fn \<Rightarrow> asString (map_of fn ''name'')
       | None \<Rightarrow> None)]"

definition args_aliases :: "jobject \<Rightarrow> jobject option list" where
  "args_aliases raw =
     [asMap (map_of raw ''arguments''), asMap (map_of raw ''args''), asMap (map_of raw ''input'')]"

definition first_match :: "('a \<Rightarrow> bool) \<Rightarrow> 'a option list \<Rightarrow> 'a option" where
  "first_match P cands = (case filter P (List.map_filter id cands) of [] \<Rightarrow> None | x # _ \<Rightarrow> Some x)"

definition spec_parseToolCall :: "(string \<Rightarrow> jobject option) \<Rightarrow> string \<Rightarrow> ToolCall option" where
  "spec_parseToolCall unmarshal content =
     (case unmarshal content of
        None \<Rightarrow> None
      | Some raw \<Rightarrow>
          (case first_match (\<lambda>n. n \<noteq> []) (name_aliases raw) of
             None \<Rightarrow> None
           | Some n \<Rightarrow>
               Some \<lparr>call_Name = n, call_Args = first_match (\<lambda>_. True) (args_aliases raw)\<rparr>))"

section \<open>The agent loop\<close>

text \<open>
  \<^verbatim>\<open>strings.ReplaceAll\<close> replaces the non-overlapping occurrences of \<open>old\<close> from left to
  right. The source calls it with one-byte patterns only; for the empty pattern the
  definition inserts \<open>new\<close> before every byte and at the end, which is what Go does on
  ASCII text.
\<close>

function ReplaceAll :: "string \<Rightarrow> string \<Rightarrow> string \<Rightarrow> string" where
  "ReplaceAll s old new =
     (if old = [] then concat (map (\<lambda>c. new @ [c]) s) @ new
      else if s = [] then []
      else if prefix old s then new @ ReplaceAll (drop (length old) s) old new
      else hd s # ReplaceAll (tl s) old new)"
  by pat_completeness auto
termination
  by (relation "measure (\<lambda>(s, old, new). length s)") auto

declare ReplaceAll.simps [simp del]

definition escapeString :: "string \<Rightarrow> string" where
  "escapeString s =
     (let s = ReplaceAll s [CHR 0x5C] [CHR 0x5C, CHR 0x5C];
          s = ReplaceAll s [CHR 0x22] [CHR 0x5C, CHR 0x22];
          s = ReplaceAll s [CHR 0x0A] [CHR 0x5C, CHR ''n'']
      in s)"

text \<open>
  \<^verbatim>\<open>tool/types.go\<close> and the \<^verbatim>\<open>Execute\<close> method the loop calls. The parameter schema of
  \<^verbatim>\<open>ToolInfo\<close> is not read by the loop and is left out. Collaborators outside the loop
  (the model, the tools) may have effects: they take and return a world state \<open>'w\<close>.
  \<open>'r\<close> is the type of tool results (\<^verbatim>\<open>interface{}\<close> in the source). \<^verbatim>\<open>Execute\<close> returns
  \<open>Inl\<close> of the error text when its error is non-nil; the loop ignores the result then.
\<close>

record ToolInfo =
  Name :: string
  Desc :: string

record ('w, 'r) Tool =
  Info :: ToolInfo
  Execute :: "'w \<Rightarrow> jobject option \<Rightarrow> (error + 'r) \<times> 'w"

text \<open>
  The \<^verbatim>\<open>ChatModel\<close> interface. \<open>model_Generate\<close> returns \<open>Inl\<close> of the error text when the
  error is non-nil, \<open>Inr None\<close> for a nil message and a nil error.
\<close>

type_synonym reply = "error + Message option"

record 'w ChatModel =
  model_Generate :: "'w \<Rightarrow> Message list \<Rightarrow> reply \<times> 'w"
  BindTools :: "'w \<Rightarrow> ToolInfo list \<Rightarrow> 'w"

record ('w, 'r) ReactAgentConfig =
  MaxStep :: int
  Model :: "'w ChatModel option"
  Tools :: "('w, 'r) Tool list"

text \<open>\<open>state\<close> is \<^verbatim>\<open>r.state.messages\<close>; the agent owns its configuration.\<close>

record ('w, 'r) ReactAgent =
  state :: "Message list"
  conf :: "('w, 'r) ReactAgentConfig"

type_synonym ('w, 'r) ReactAgentOption = "('w, 'r) ReactAgent \<Rightarrow> ('w, 'r) ReactAgent"

definition WithMaxStep :: "int \<Rightarrow> ('w, 'r) ReactAgentOption" where
  "WithMaxStep maxStep = (\<lambda>ra. ra\<lparr>conf := (conf ra)\<lparr>MaxStep := maxStep\<rparr>\<rparr>)"

definition NewReactAgent ::
  "'w \<Rightarrow> ('w, 'r) ReactAgentConfig \<Rightarrow> ('w, 'r) ReactAgentOption list \<Rightarrow> ('w, 'r) ReactAgent \<times> 'w"
where
  "NewReactAgent w c opts =
     (let ra = \<lparr>state = [], conf = c\<rparr>;
          ra = foldl (\<lambda>ra opt. opt ra) ra opts;
          infos = map Info (Tools (conf ra));
          w = (case Model (conf ra) of Some m \<Rightarrow> BindTools m w infos | None \<Rightarrow> w);
          ra = (if MaxStep (conf ra) = 0 then ra\<lparr>conf := (conf ra)\<lparr>MaxStep := 8\<rparr>\<rparr> else ra)
      in (ra, w))"

text \<open>
  The standard-library functions the loop calls on values of types it does not know:
  \<^verbatim>\<open>json.Unmarshal\<close> into a map, \<^verbatim>\<open>json.Marshal\<close> of a tool result (\<open>None\<close> when it returns
  an error) and the \<^verbatim>\<open>%v\<close> format of a tool result.
\<close>

record 'r Stdlib =
  json_Unmarshal :: "string \<Rightarrow> jobject option"
  json_Marshal :: "'r \<Rightarrow> string option"
  fmt_v :: "'r \<Rightarrow> string"

text \<open>
  One iteration of the loop of \<^verbatim>\<open>Generate\<close> after the model has replied: how the iteration
  is left (\<^verbatim>\<open>return\<close> with a message and an error, or on to the next iteration), the
  messages of the state and the world afterwards.
\<close>

datatype Flow = Continue | Return Message "error option"

definition Generate_step ::
  "'r Stdlib \<Rightarrow> ('w, 'r) ReactAgentConfig \<Rightarrow> reply \<Rightarrow> Message list \<Rightarrow> 'w \<Rightarrow> Flow \<times> Message list \<times> 'w"
where
  \<open>Generate_step L c rep msgs w =
     (case rep of
        Inl err \<Rightarrow> (Return \<lparr>Role = RoleAssistant, Content = err\<rparr> (Some err), msgs, w)
      | Inr None \<Rightarrow>
          (Return \<lparr>Role = RoleAssistant, Content = ''empty message returned''\<rparr> None, msgs, w)
      | Inr (Some msg) \<Rightarrow>
          if Role msg = RoleTool then
            (let msgs = msgs @ [msg];
                 (call, ok) = parseToolCall (json_Unmarshal L) (Content msg)
             in if \<not> ok \<or> call_Name call = [] then
                  (Return \<lparr>Role = RoleAssistant, Content = ''invalid tool call payload''\<rparr> None,
                   msgs, w)
                else
                  (case find (\<lambda>t. Name (Info t) = call_Name call) (Tools c) of
                     None \<Rightarrow>
                       (Return \<lparr>Role = RoleAssistant,
                                Content = ''tool '' @ [CHR 0x27] @ call_Name call @ [CHR 0x27]
                                            @ '' not found''\<rparr> None,
                        msgs, w)
                   | Some selected \<Rightarrow>
                       (case Execute selected w (call_Args call) of
                          (res, w) \<Rightarrow>
                            (let toolContent =
                                   (case res of
                                      Inl execErr \<Rightarrow> ''{"error":"'' @ escapeString execErr @ ''"}''
                                    | Inr result \<Rightarrow>
                                        (case json_Marshal L result of
                                           Some b \<Rightarrow> b
                                         | None \<Rightarrow> ''{"result":"'' @ fmt_v L result @ ''"}''))
                             in (Continue,
                                 msgs @ [\<lparr>Role = RoleTool, Content = toolContent\<rparr>], w)))))
          else if Role msg = RoleAssistant then (Return msg None, msgs @ [msg], w)
          else (Continue, msgs @ [msg], w))\<close>

text \<open>
  What a call of \<^verbatim>\<open>Generate\<close> returns (\<open>ret_msg\<close>, \<open>ret_err\<close>, \<open>ret_state\<close>: the third value
  is nil or the state) and leaves behind: the messages of the agent's state and the
  world. \<open>replies\<close> is not in the source: it records the replies of the model in the
  order of the calls, so that the calls can be counted and spoken about.
\<close>

record 'w GenerateResult =
  ret_msg :: Message
  ret_err :: "error option"
  ret_state :: "Message list option"
  messages :: "Message list"
  world :: 'w
  replies :: "reply list"

function Generate_loop ::
  "'r Stdlib \<Rightarrow> ('w, 'r) ReactAgentConfig \<Rightarrow> 'w ChatModel \<Rightarrow> int \<Rightarrow> Message list \<Rightarrow> 'w \<Rightarrow> reply list
     \<Rightarrow> 'w GenerateResult"
where
  "Generate_loop L c m step msgs w tr =
     (if step < MaxStep c then
        (case model_Generate m w msgs of
           (rep, w1) \<Rightarrow>
             (case Generate_step L c rep msgs w1 of
                (Return msg err, msgs', w') \<Rightarrow>
                  \<lparr>ret_msg = msg, ret_err = err, ret_state = None, messages = msgs',
                   world = w', replies = tr @ [rep]\<rparr>
              | (Continue, msgs', w') \<Rightarrow> Generate_loop L c m (step + 1) msgs' w' (tr @ [rep])))
      else
        \<lparr>ret_msg = \<lparr>Role = RoleAssistant, Content = ''max steps reached''\<rparr>, ret_err = None,
         ret_state = Some msgs, messages = msgs, world = w, replies = tr\<rparr>)"
  by pat_completeness auto
termination
  by (relation "measure (\<lambda>(L, c, m, step, msgs, w, tr). nat (MaxStep c - step))") auto

declare Generate_loop.simps [simp del]

definition Generate ::
  "'r Stdlib \<Rightarrow> ('w, 'r) ReactAgent \<Rightarrow> 'w \<Rightarrow> Message list \<Rightarrow> 'w GenerateResult"
where
  "Generate L r w history =
     (case Model (conf r) of
        None \<Rightarrow>
          \<lparr>ret_msg = \<lparr>Role = RoleAssistant, Content = ''model not initialized''\<rparr>, ret_err = None,
           ret_state = None, messages = state r, world = w, replies = []\<rparr>
      | Some m \<Rightarrow> Generate_loop L (conf r) m 0 (state r @ history) w [])"

text \<open>Successive calls of \<^verbatim>\<open>Generate\<close> on one agent: each call starts from the state and
  the world the previous one left.\<close>

fun Generate_calls ::
  "'r Stdlib \<Rightarrow> ('w, 'r) ReactAgent \<Rightarrow> 'w \<Rightarrow> Message list list \<Rightarrow> 'w GenerateResult list"
where
  "Generate_calls L r w [] = []"
| "Generate_calls L r w (h # hs) =
     (let res = Generate L r w h
      in res # Generate_calls L (r\<lparr>state := messages res\<rparr>) (world res) hs)"

text \<open>A reply that is a tool-role message whose content parses to the name of a registered
  tool.\<close>

definition requests_registered_tool :: "'r Stdlib \<Rightarrow> ('w, 'r) ReactAgentConfig \<Rightarrow> reply \<Rightarrow> bool" where
  "requests_registered_tool L c rep =
     (case rep of
        Inr (Some msg) \<Rightarrow>
          Role msg = RoleTool \<and>
          (case parseToolCall (json_Unmarshal L) (Content msg) of
             (call, ok) \<Rightarrow> ok \<and> find (\<lambda>t. Name (Info t) = call_Name call) (Tools c) \<noteq> None)
      | _ \<Rightarrow> False)"

text \<open>The escape of one byte as the comment of \<^verbatim>\<open>escapeString\<close> words it: backslash, double
  quote and newline get a backslash escape, every other byte is copied.\<close>

definition escape_char :: "char \<Rightarrow> string" where
  "escape_char ch =
     (if ch = CHR 0x5C then [CHR 0x5C, CHR 0x5C]
      else if ch = CHR 0x22 then [CHR 0x5C, CHR 0x22]
      else if ch = CHR 0x0A then [CHR 0x5C, CHR ''n'']
      else [ch])"

text \<open>The result of \<^verbatim>\<open>Generate\<close> when the step budget is used up.\<close>

definition max_steps_result :: "Message list \<Rightarrow> 'w \<Rightarrow> reply list \<Rightarrow> 'w GenerateResult" where
  "max_steps_result msgs w tr =
     \<lparr>ret_msg = \<lparr>Role = RoleAssistant, Content = ''max steps reached''\<rparr>, ret_err = None,
      ret_state = Some msgs, messages = msgs, world = w, replies = tr\<rparr>"

text \<open>
  One round of the loop as the specification words it, for a model that asks for a
  registered tool: the model is called on the history, its request is appended, the tool
  that bears the requested name is executed on the parsed arguments, and one tool-role
  message with the outcome of the tool is appended. A round takes the history and the
  world to the history and the world after it; on any other reply it appends nothing.
  \<open>model_reply\<close> is the reply of the model to the call that a round starts with.
\<close>

definition tool_round ::
  "'r Stdlib \<Rightarrow> ('w, 'r) ReactAgentConfig \<Rightarrow> 'w ChatModel \<Rightarrow> Message list \<times> 'w
     \<Rightarrow> Message list \<times> 'w"
where
  \<open>tool_round L c m s =
     (case s of
        (msgs, w) \<Rightarrow>
          (case model_Generate m w msgs of
             (Inr (Some a), w1) \<Rightarrow>
               (let call = fst (parseToolCall (json_Unmarshal L) (Content a))
                in case find (\<lambda>t. Name (Info t) = call_Name call) (Tools c) of
                     Some t \<Rightarrow>
                       (case Execute t w1 (call_Args call) of
                          (res, w2) \<Rightarrow>
                            (msgs @
                               [a,
                                \<lparr>Role = RoleTool,
                                 Content =
                                   (case res of
                                      Inl e \<Rightarrow> ''{"error":"'' @ concat (map escape_char e) @ ''"}''
                                    | Inr v \<Rightarrow>
                                        (case json_Marshal L v of
                                           Some b \<Rightarrow> b
                                         | None \<Rightarrow> ''{"result":"'' @ fmt_v L v @ ''"}''))\<rparr>],
                             w2))
                   | None \<Rightarrow> (msgs, w1))
           | (_, w1) \<Rightarrow> (msgs, w1)))\<close>

definition model_reply :: "'w ChatModel \<Rightarrow> Message list \<times> 'w \<Rightarrow> reply" where
  "model_reply m s = fst (model_Generate m (snd s) (fst s))"

section \<open>The stream decoder\<close>

text \<open>
  \<^verbatim>\<open>chatmodel/qwen.go\<close>: the structs a stream event is decoded into. The fields \<^verbatim>\<open>Role\<close>,
  \<^verbatim>\<open>Content\<close>, \<^verbatim>\<open>Message\<close> and \<^verbatim>\<open>Model\<close> carry a prefix, their names being taken.
\<close>

record QWenMessage =
  qwen_Role :: string
  qwen_Content :: string

record QWenChoice =
  Index :: int
  choice_Message :: QWenMessage
  Delta :: QWenMessage
  FinishReason :: string

record QWenStreamResponse =
  ID :: string
  Object :: string
  Created :: int
  resp_Model :: string
  Choices :: "QWenChoice list"

text \<open>
  The standard-library calls of the decoder. A \<^verbatim>\<open>bytes.Buffer\<close> is its unread bytes.
  \<^verbatim>\<open>ReadString\<close> returns the bytes up to and including the first delimiter; when there is
  no delimiter it returns all the unread bytes together with \<^verbatim>\<open>io.EOF\<close> (the flag) and
  leaves the buffer empty.
\<close>

definition ReadString :: "string \<Rightarrow> char \<Rightarrow> string \<times> bool \<times> string" where
  "ReadString buf delim =
     (if delim \<in> set buf
      then (takeWhile (\<lambda>x. x \<noteq> delim) buf @ [delim], False, tl (dropWhile (\<lambda>x. x \<noteq> delim) buf))
      else (buf, True, []))"

definition TrimRight :: "string \<Rightarrow> string \<Rightarrow> string" where
  "TrimRight s cutset = rev (dropWhile (\<lambda>x. x \<in> set cutset) (rev s))"

definition HasPrefix :: "string \<Rightarrow> string \<Rightarrow> bool" where
  "HasPrefix s p = prefix p s"

definition TrimPrefix :: "string \<Rightarrow> string \<Rightarrow> string" where
  "TrimPrefix s p = (if HasPrefix s p then drop (length p) s else s)"

text \<open>
  The inner loop of the worker of \<^verbatim>\<open>Stream\<close>: it reads lines from the buffer until
  \<^verbatim>\<open>ReadString\<close> reports \<^verbatim>\<open>io.EOF\<close> (\<^verbatim>\<open>break\<close>) or the line \<^verbatim>\<open>data: [DONE]\<close> is met
  (\<^verbatim>\<open>return\<close>). It yields how it was left, the buffer and the messages sent on
  \<^verbatim>\<open>msgChan\<close> so far. The first argument is \<^verbatim>\<open>json.Unmarshal\<close> into a
  \<^verbatim>\<open>QWenStreamResponse\<close>, \<open>None\<close> when it returns an error. A \<^verbatim>\<open>bytes.Buffer\<close> returns no
  error but \<^verbatim>\<open>io.EOF\<close>, so the branch that reports another read error is never taken.
\<close>

datatype LineLoop = Break | Returned

function Stream_lines ::
  "(string \<Rightarrow> QWenStreamResponse option) \<Rightarrow> string \<Rightarrow> Message list \<Rightarrow> LineLoop \<times> string \<times> Message list"
where
  "Stream_lines unmarshal buf out =
     (case ReadString buf (CHR 0x0A) of
        (line, eof, buf') \<Rightarrow>
          if eof then (Break, buf', out)
          else
            (let line = TrimRight line [CHR 0x0D, CHR 0x0A]
             in if line = [] \<or> HasPrefix line '':'' then Stream_lines unmarshal buf' out
                else if \<not> HasPrefix line ''data: '' then Stream_lines unmarshal buf' out
                else
                  (let data = TrimPrefix line ''data: ''
                   in if data = ''[DONE]'' then (Returned, buf', out)
                      else
                        (case unmarshal data of
                           None \<Rightarrow> Stream_lines unmarshal buf' out
                         | Some streamResp \<Rightarrow>
                             if 0 < length (Choices streamResp) then
                               (let choice = hd (Choices streamResp)
                                in if qwen_Content (Delta choice) \<noteq> [] then
                                     Stream_lines unmarshal buf'
                                       (out @ [\<lparr>Role = RoleAssistant,
                                                Content = qwen_Content (Delta choice)\<rparr>])
                                   else Stream_lines unmarshal buf' out)
                             else Stream_lines unmarshal buf' out))))"
  by pat_completeness auto
termination
proof -
  have less: "length (dropWhile (\<lambda>x. x \<noteq> d) b) - Suc 0 < length b" if "d \<in> set b"
    for d :: char and b
  proof -
    from that have "dropWhile (\<lambda>x. x \<noteq> d) b \<noteq> []" by simp
    then have "length (dropWhile (\<lambda>x. x \<noteq> d) b) - Suc 0 < length (dropWhile (\<lambda>x. x \<noteq> d) b)"
      by (cases "dropWhile (\<lambda>x. x \<noteq> d) b") simp_all
    also have "\<dots> \<le> length b" by (rule length_dropWhile_le)
    finally show ?thesis .
  qed
  show ?thesis
    by (relation "measure (\<lambda>(u, buf, out). length buf)")
      (auto simp: ReadString_def less split: if_splits)
qed

declare Stream_lines.simps [simp del]

text \<open>
  The worker of \<^verbatim>\<open>Stream\<close> after the request is sent, as a function of what its
  \<^verbatim>\<open>select\<close> receives, in order: a chunk or the closing of \<^verbatim>\<open>stream\<close>, an error, nil or the
  closing of \<^verbatim>\<open>errs\<close>, or the cancellation of the context with its error. \<open>finished\<close>
  tells that the worker has returned (its deferred calls then close both channels);
  when the events run out before, it is still waiting in \<^verbatim>\<open>select\<close>. The consumer is taken
  to receive every message, so that sending on \<^verbatim>\<open>msgChan\<close> does not block.
\<close>

datatype Event =
    StreamRecv "string option"
  | ErrsRecv "error option option"
  | CtxDone error

record StreamResult =
  sent :: "Message list"
  errs_sent :: "error list"
  finished :: bool

fun Stream_loop ::
  "(string \<Rightarrow> QWenStreamResponse option) \<Rightarrow> Event list \<Rightarrow> string \<Rightarrow> Message list \<Rightarrow> StreamResult"
where
  "Stream_loop unmarshal [] buf out = \<lparr>sent = out, errs_sent = [], finished = False\<rparr>"
| "Stream_loop unmarshal (StreamRecv None # evs) buf out =
     \<lparr>sent = out, errs_sent = [], finished = True\<rparr>"
| "Stream_loop unmarshal (StreamRecv (Some chunk) # evs) buf out =
     (case Stream_lines unmarshal (buf @ chunk) out of
        (Returned, buf', out') \<Rightarrow> \<lparr>sent = out', errs_sent = [], finished = True\<rparr>
      | (Break, buf', out') \<Rightarrow> Stream_loop unmarshal evs buf' out')"
| "Stream_loop unmarshal (ErrsRecv None # evs) buf out =
     \<lparr>sent = out, errs_sent = [], finished = True\<rparr>"
| "Stream_loop unmarshal (ErrsRecv (Some None) # evs) buf out = Stream_loop unmarshal evs buf out"
| "Stream_loop unmarshal (ErrsRecv (Some (Some e)) # evs) buf out =
     \<lparr>sent = out, errs_sent = [''failed to read stream: '' @ e], finished = True\<rparr>"
| "Stream_loop unmarshal (CtxDone e # evs) buf out =
     \<lparr>sent = out, errs_sent = [e], finished = True\<rparr>"

definition Stream :: "(string \<Rightarrow> QWenStreamResponse option) \<Rightarrow> Event list \<Rightarrow> StreamResult" where
  "Stream unmarshal evs = Stream_loop unmarshal evs [] []"

section \<open>Concrete collaborators for the examples\<close>

text \<open>
  A reference for \<^verbatim>\<open>json.Unmarshal\<close> into a \<^verbatim>\<open>QWenStreamResponse\<close>, on top of \<open>decodeJSON\<close>:
  an absent or \<^verbatim>\<open>null\<close> field keeps its zero value, a field of another type than the
  struct declares is an error.
\<close>

definition field_string :: "jobject \<Rightarrow> string \<Rightarrow> string option" where
  "field_string m k =
     (case map_of m k of
        None \<Rightarrow> Some []
      | Some JNull \<Rightarrow> Some []
      | Some (JStr s) \<Rightarrow> Some s
      | Some _ \<Rightarrow> None)"

definition field_int :: "jobject \<Rightarrow> string \<Rightarrow> int option" where
  "field_int m k =
     (case map_of m k of
        None \<Rightarrow> Some 0
      | Some JNull \<Rightarrow> Some 0
      | Some (JNum i) \<Rightarrow> Some i
      | Some _ \<Rightarrow> None)"

definition decode_QWenMessage :: "json option \<Rightarrow> QWenMessage option" where
  "decode_QWenMessage v =
     (case v of
        None \<Rightarrow> Some \<lparr>qwen_Role = [], qwen_Content = []\<rparr>
      | Some JNull \<Rightarrow> Some \<lparr>qwen_Role = [], qwen_Content = []\<rparr>
      | Some (JObj m) \<Rightarrow>
          (case (field_string m ''role'', field_string m ''content'') of
             (Some r, Some c) \<Rightarrow> Some \<lparr>qwen_Role = r, qwen_Content = c\<rparr>
           | _ \<Rightarrow> None)
      | Some _ \<Rightarrow> None)"

definition decode_QWenChoice :: "json \<Rightarrow> QWenChoice option" where
  "decode_QWenChoice v =
     (case v of
        JNull \<Rightarrow>
          Some \<lparr>Index = 0, choice_Message = \<lparr>qwen_Role = [], qwen_Content = []\<rparr>,
                Delta = \<lparr>qwen_Role = [], qwen_Content = []\<rparr>, FinishReason = []\<rparr>
      | JObj m \<Rightarrow>
          (case (field_int m ''index'', decode_QWenMessage (map_of m ''message''),
                 decode_QWenMessage (map_of m ''delta''), field_string m ''finish_reason'') of
             (Some i, Some msg, Some d, Some f) \<Rightarrow>
               Some \<lparr>Index = i, choice_Message = msg, Delta = d, FinishReason = f\<rparr>
           | _ \<Rightarrow> None)
      | _ \<Rightarrow> None)"

fun decode_choices :: "json list \<Rightarrow> QWenChoice list option" where
  "decode_choices [] = Some []"
| "decode_choices (v # vs) =
     (case (decode_QWenChoice v, decode_choices vs) of
        (Some ch, Some chs) \<Rightarrow> Some (ch # chs)
      | _ \<Rightarrow> None)"

definition decodeStreamResponse :: "string \<Rightarrow> QWenStreamResponse option" where
  "decodeStreamResponse s =
     (case decodeJSON s of
        None \<Rightarrow> None
      | Some m \<Rightarrow>
          (case (field_string m ''id'', field_string m ''object'', field_int m ''created'',
                 field_string m ''model'',
                 (case map_of m ''choices'' of
                    None \<Rightarrow> Some []
                  | Some JNull \<Rightarrow> Some []
                  | Some (JArr vs) \<Rightarrow> decode_choices vs
                  | Some _ \<Rightarrow> None)) of
             (Some i, Some ob, Some cr, Some mo, Some chs) \<Rightarrow>
               Some \<lparr>ID = i, Object = ob, Created = cr, resp_Model = mo, Choices = chs\<rparr>
           | _ \<Rightarrow> None))"

text \<open>
  Tools whose results are strings. \<open>plain_Marshal\<close> is \<^verbatim>\<open>json.Marshal\<close> on strings of
  letters, digits and spaces, which it puts between double quotes; on any other string
  the examples take it to fail. \<open>broken_stdlib\<close> has a marshaller that always fails.
\<close>

definition is_plain :: "char \<Rightarrow> bool" where
  "is_plain ch =
     (ch \<in> set ''abcdefghijklmnopqrstuvwxyzABCDEFGHIJKLMNOPQRSTUVWXYZ0123456789 '')"

definition plain_Marshal :: "string \<Rightarrow> string option" where
  "plain_Marshal s = (if list_all is_plain s then Some ([CHR 0x22] @ s @ [CHR 0x22]) else None)"

definition example_stdlib :: "string Stdlib" where
  "example_stdlib =
     \<lparr>json_Unmarshal = decodeJSON, json_Marshal = plain_Marshal, fmt_v = (\<lambda>s. s)\<rparr>"

definition broken_stdlib :: "string Stdlib" where
  "broken_stdlib =
     \<lparr>json_Unmarshal = decodeJSON, json_Marshal = (\<lambda>s. None), fmt_v = (\<lambda>s. s)\<rparr>"

text \<open>\<open>echo_tool\<close> returns its \<^verbatim>\<open>text\<close> argument and fails without one; \<open>failing_tool e\<close>
  always fails with the error \<open>e\<close>.\<close>

definition echo_tool :: "('w, string) Tool" where
  "echo_tool =
     \<lparr>Info = \<lparr>Name = ''echo'', Desc = ''returns its text''\<rparr>,
      Execute = (\<lambda>w args.
        (case asString (map_of (case args of None \<Rightarrow> [] | Some m \<Rightarrow> m) ''text'') of
           Some s \<Rightarrow> (Inr s, w)
         | None \<Rightarrow> (Inl ''text is required'', w)))\<rparr>"

definition failing_tool :: "error \<Rightarrow> ('w, string) Tool" where
  "failing_tool e =
     \<lparr>Info = \<lparr>Name = ''fail'', Desc = ''always fails''\<rparr>, Execute = (\<lambda>w args. (Inl e, w))\<rparr>"

text \<open>\<open>scripted_model\<close> answers with the replies of a script, which is its world, one per
  call, and with a nil message once the script is used up; \<open>constant_model rep\<close> gives
  the same reply to every call.\<close>

definition scripted_model :: "(reply list) ChatModel" where
  "scripted_model =
     \<lparr>model_Generate = (\<lambda>w msgs. case w of [] \<Rightarrow> (Inr None, []) | rep # reps \<Rightarrow> (rep, reps)),
      BindTools = (\<lambda>w infos. w)\<rparr>"

definition constant_model :: "reply \<Rightarrow> unit ChatModel" where
  "constant_model rep = \<lparr>model_Generate = (\<lambda>w msgs. (rep, w)), BindTools = (\<lambda>w infos. w)\<rparr>"

definition tool_request :: "string \<Rightarrow> reply" where
  "tool_request content = Inr (Some \<lparr>Role = RoleTool, Content = content\<rparr>)"

definition assistant_reply :: "string \<Rightarrow> reply" where
  "assistant_reply content = Inr (Some \<lparr>Role = RoleAssistant, Content = content\<rparr>)"

definition example_config :: "int \<Rightarrow> 'w ChatModel option \<Rightarrow> ('w, string) ReactAgentConfig" where
  "example_config n m = \<lparr>MaxStep = n, Model = m, Tools = [echo_tool, failing_tool [CHR ''a'', CHR 0x09, CHR ''b'']]\<rparr>"

definition example_agent :: "int \<Rightarrow> 'w ChatModel option \<Rightarrow> ('w, string) ReactAgent" where
  "example_agent n m = \<lparr>state = [], conf = example_config n m\<rparr>"

definition user_message :: "string \<Rightarrow> Message" where
  "user_message content = \<lparr>Role = RoleUser, Content = content\<rparr>"

definition example_script :: "reply list" where
  \<open>example_script =
     [tool_request ''{"tool":"echo","arguments":{"text":"hi"}}'', assistant_reply ''done'',
      assistant_reply ''never asked for'']\<close>

text \<open>A script that asks for two registered tools before it answers.\<close>

definition tool_script :: "reply list" where
  \<open>tool_script =
     [tool_request ''{"tool":"echo","arguments":{"text":"hi"}}'', tool_request ''{"name":"fail"}'',
      assistant_reply ''too late'']\<close>

section \<open>Properties of tool-call parsing\<close>

lemma first_match_Nil: "first_match P [] = None"
  by (simp add: first_match_def List.map_filter_simps)

lemma first_match_Cons:
  "first_match P (x # xs) =
     (case x of None \<Rightarrow> first_match P xs | Some v \<Rightarrow> if P v then Some v else first_match P xs)"
  by (simp add: first_match_def List.map_filter_simps split: option.splits)

lemma first_match_None_iff:
  "first_match P xs = None \<longleftrightarrow> list_all (\<lambda>a. case a of None \<Rightarrow> True | Some v \<Rightarrow> \<not> P v) xs"
  by (induction xs) (simp_all add: first_match_Nil first_match_Cons split: option.splits)

text \<open>The chain of assignments of the source, with the seven looked-up values abstracted,
  picks the first non-empty name and the first object.\<close>

lemma resolve_aliases:
  "(let name = [];
        name = (case t of Some v \<Rightarrow> v | None \<Rightarrow> name);
        name = (case n of Some v \<Rightarrow> if name = [] then v else name | None \<Rightarrow> name);
        name = (case f of
                  Some fn \<Rightarrow>
                    if name = [] then (case g fn of Some v \<Rightarrow> v | None \<Rightarrow> name) else name
                | None \<Rightarrow> name);
        args = (case a of
                  Some v \<Rightarrow> Some v
                | None \<Rightarrow>
                    (case b of
                       Some v \<Rightarrow> Some v
                     | None \<Rightarrow> (case i of Some v \<Rightarrow> Some v | None \<Rightarrow> None)))
    in if name \<noteq> [] then (\<lparr>call_Name = name, call_Args = args\<rparr>, True)
       else (zero_ToolCall, False)) =
   (case (case first_match (\<lambda>n. n \<noteq> []) [t, n, case f of Some fn \<Rightarrow> g fn | None \<Rightarrow> None] of
            None \<Rightarrow> None
          | Some m \<Rightarrow> Some \<lparr>call_Name = m, call_Args = first_match (\<lambda>_. True) [a, b, i]\<rparr>) of
      None \<Rightarrow> (zero_ToolCall, False)
    | Some tc \<Rightarrow> (tc, True))"
  by (cases t; cases n; cases f; cases a; cases b; cases i;
      simp add: Let_def first_match_Nil first_match_Cons split: option.splits)

lemma parseToolCall_refines:
  "parseToolCall um c =
     (case spec_parseToolCall um c of None \<Rightarrow> (zero_ToolCall, False) | Some tc \<Rightarrow> (tc, True))"
proof (cases "um c")
  case None
  then show ?thesis by (simp add: parseToolCall_def spec_parseToolCall_def)
next
  case (Some raw)
  show ?thesis
    unfolding parseToolCall_def spec_parseToolCall_def name_aliases_def args_aliases_def
      Some option.case
    by (rule resolve_aliases)
qed

lemma parseToolCall_fails_iff:
  "\<not> snd (parseToolCall um c) \<longleftrightarrow>
     (case um c of
        None \<Rightarrow> True
      | Some raw \<Rightarrow> list_all (\<lambda>a. a = None \<or> a = Some []) (name_aliases raw))"
proof (cases "um c")
  case None
  then show ?thesis
    by (simp add: parseToolCall_refines spec_parseToolCall_def)
next
  case (Some raw)
  have eq: "(\<lambda>a. case a of None \<Rightarrow> True | Some v \<Rightarrow> \<not> v \<noteq> []) = (\<lambda>a. a = None \<or> a = Some [])"
    by (rule ext) (simp split: option.splits)
  have none: "first_match (\<lambda>n. n \<noteq> []) (name_aliases raw) = None \<longleftrightarrow>
      list_all (\<lambda>a. a = None \<or> a = Some []) (name_aliases raw)"
    by (simp add: first_match_None_iff eq)
  show ?thesis
  proof (cases "first_match (\<lambda>n. n \<noteq> []) (name_aliases raw)")
    case None
    with none Some show ?thesis
      by (simp add: parseToolCall_refines spec_parseToolCall_def)
  next
    case (Some n)
    with none \<open>um c = Some raw\<close> show ?thesis
      by (simp add: parseToolCall_refines spec_parseToolCall_def)
  qed
qed

lemma parseToolCall_ok_name: "parseToolCall um c = (call, True) \<Longrightarrow> call_Name call \<noteq> []"
  by (auto simp: parseToolCall_def Let_def split: option.splits if_splits)

lemmas decode_simps =
  decodeJSON_def skip_ws_def is_ws_def parse_int_def is_digit_def digit_val_def
  put_member_def unescape_def

lemma decode_tool_arguments:
  \<open>decodeJSON ''{"tool":"x","arguments":{"a":1}}'' =
     Some [(''tool'', JStr ''x''), (''arguments'', JObj [(''a'', JNum 1)])]\<close>
  by (simp add: decode_simps)

lemma decode_name_args:
  \<open>decodeJSON ''{"name":"x","args":{"a":1}}'' =
     Some [(''name'', JStr ''x''), (''args'', JObj [(''a'', JNum 1)])]\<close>
  by (simp add: decode_simps)

lemma decode_function_input:
  \<open>decodeJSON ''{"function":{"name":"x"},"input":{"a":1}}'' =
     Some [(''function'', JObj [(''name'', JStr ''x'')]), (''input'', JObj [(''a'', JNum 1)])]\<close>
  by (simp add: decode_simps)

text \<open>
  C4. The three spellings of a call of tool \<open>x\<close> with arguments \<open>{a: 1}\<close> parse to the same
  call. For every decoder and every content, \<^verbatim>\<open>parseToolCall\<close> returns the first name
  candidate in the order \<^verbatim>\<open>tool\<close>, \<^verbatim>\<open>name\<close>, \<^verbatim>\<open>function.name\<close> that is a non-empty string,
  with the first arguments candidate in the order \<^verbatim>\<open>arguments\<close>, \<^verbatim>\<open>args\<close>, \<^verbatim>\<open>input\<close> that is
  an object; and it fails exactly when the content does not decode or no name candidate
  is a non-empty string.
\<close>

theorem parseToolCall_aliases:
  \<open>parseToolCall decodeJSON ''{"tool":"x","arguments":{"a":1}}'' =
     (\<lparr>call_Name = ''x'', call_Args = Some [(''a'', JNum 1)]\<rparr>, True)
   \<and> parseToolCall decodeJSON ''{"name":"x","args":{"a":1}}'' =
     (\<lparr>call_Name = ''x'', call_Args = Some [(''a'', JNum 1)]\<rparr>, True)
   \<and> parseToolCall decodeJSON ''{"function":{"name":"x"},"input":{"a":1}}'' =
     (\<lparr>call_Name = ''x'', call_Args = Some [(''a'', JNum 1)]\<rparr>, True)
   \<and> parseToolCall um c =
     (case um c of
        None \<Rightarrow> (zero_ToolCall, False)
      | Some raw \<Rightarrow>
          (case first_match (\<lambda>n. n \<noteq> []) (name_aliases raw) of
             None \<Rightarrow> (zero_ToolCall, False)
           | Some n \<Rightarrow>
               (\<lparr>call_Name = n, call_Args = first_match (\<lambda>_. True) (args_aliases raw)\<rparr>, True)))
   \<and> (\<not> snd (parseToolCall um c) \<longleftrightarrow>
        (case um c of
           None \<Rightarrow> True
         | Some raw \<Rightarrow> list_all (\<lambda>a. a = None \<or> a = Some []) (name_aliases raw)))\<close>
proof (intro conjI)
  show \<open>parseToolCall decodeJSON ''{"tool":"x","arguments":{"a":1}}'' =
     (\<lparr>call_Name = ''x'', call_Args = Some [(''a'', JNum 1)]\<rparr>, True)\<close>
    by (simp add: parseToolCall_def decode_tool_arguments)
  show \<open>parseToolCall decodeJSON ''{"name":"x","args":{"a":1}}'' =
     (\<lparr>call_Name = ''x'', call_Args = Some [(''a'', JNum 1)]\<rparr>, True)\<close>
    by (simp add: parseToolCall_def decode_name_args)
  show \<open>parseToolCall decodeJSON ''{"function":{"name":"x"},"input":{"a":1}}'' =
     (\<lparr>call_Name = ''x'', call_Args = Some [(''a'', JNum 1)]\<rparr>, True)\<close>
    by (simp add: parseToolCall_def decode_function_input)
  show "parseToolCall um c =
     (case um c of
        None \<Rightarrow> (zero_ToolCall, False)
      | Some raw \<Rightarrow>
          (case first_match (\<lambda>n. n \<noteq> []) (name_aliases raw) of
             None \<Rightarrow> (zero_ToolCall, False)
           | Some n \<Rightarrow>
               (\<lparr>call_Name = n, call_Args = first_match (\<lambda>_. True) (args_aliases raw)\<rparr>, True)))"
    by (simp add: parseToolCall_refines spec_parseToolCall_def split: option.splits)
  show "\<not> snd (parseToolCall um c) \<longleftrightarrow>
        (case um c of
           None \<Rightarrow> True
         | Some raw \<Rightarrow> list_all (\<lambda>a. a = None \<or> a = Some []) (name_aliases raw))"
    by (rule parseToolCall_fails_iff)
qed

lemma decode_priority_example:
  \<open>decodeJSON ''{"tool":"","name":"y","function":{"name":"z"},"arguments":3,"input":{},"args":{"b":2}}'' =
     Some [(''tool'', JStr []), (''name'', JStr ''y''), (''function'', JObj [(''name'', JStr ''z'')]),
           (''arguments'', JNum 3), (''input'', JObj []), (''args'', JObj [(''b'', JNum 2)])]\<close>
  by (simp add: decode_simps)

theorem parseToolCall_aliases_witness:
  \<open>parseToolCall decodeJSON
      ''{"tool":"","name":"y","function":{"name":"z"},"arguments":3,"input":{},"args":{"b":2}}'' =
     (\<lparr>call_Name = ''y'', call_Args = Some [(''b'', JNum 2)]\<rparr>, True)
   \<and> \<not> snd (parseToolCall decodeJSON ''[1]'')
   \<and> \<not> snd (parseToolCall decodeJSON ''{"tool":"","name":7}'')\<close>
proof -
  have a: \<open>decodeJSON ''[1]'' = None\<close>
    by (simp add: decode_simps)
  have b: \<open>decodeJSON ''{"tool":"","name":7}'' = Some [(''tool'', JStr []), (''name'', JNum 7)]\<close>
    by (simp add: decode_simps)
  show ?thesis
    using parseToolCall_aliases [of decodeJSON
        \<open>''{"tool":"","name":"y","function":{"name":"z"},"arguments":3,"input":{},"args":{"b":2}}''\<close>]
      parseToolCall_aliases [of decodeJSON \<open>''[1]''\<close>]
      parseToolCall_aliases [of decodeJSON \<open>''{"tool":"","name":7}''\<close>]
    by (simp add: a b decode_priority_example name_aliases_def args_aliases_def
        first_match_Nil first_match_Cons)
qed

section \<open>Properties of the agent loop\<close>

lemma Generate_step_Return_role:
  "Generate_step L c rep msgs w = (Return m e, msgs', w') \<Longrightarrow> Role m = RoleAssistant"
  by (auto simp: Generate_step_def Let_def split: sum.splits option.splits if_splits prod.splits)

lemma Generate_step_flow:
  "fst (Generate_step L c rep msgs w) = fst (Generate_step L c rep msgs0 w0)"
  by (simp add: Generate_step_def Let_def split: sum.splits option.splits if_splits prod.splits)

lemma Generate_step_prefix:
  "Generate_step L c rep msgs w = (fl, msgs', w') \<Longrightarrow> prefix msgs msgs'"
  by (auto simp: Generate_step_def Let_def split: sum.splits option.splits if_splits prod.splits)

lemma loop_exit:
  "\<not> step < MaxStep c \<Longrightarrow> Generate_loop L c m step msgs w tr = max_steps_result msgs w tr"
  by (simp add: Generate_loop.simps max_steps_result_def)

lemma loop_return:
  "step < MaxStep c \<Longrightarrow> model_Generate m w msgs = (rep, w1) \<Longrightarrow>
   Generate_step L c rep msgs w1 = (Return msg err, msgs', w') \<Longrightarrow>
   Generate_loop L c m step msgs w tr =
     \<lparr>ret_msg = msg, ret_err = err, ret_state = None, messages = msgs', world = w',
      replies = tr @ [rep]\<rparr>"
  by (subst Generate_loop.simps) simp

lemma loop_continue:
  "step < MaxStep c \<Longrightarrow> model_Generate m w msgs = (rep, w1) \<Longrightarrow>
   Generate_step L c rep msgs w1 = (Continue, msgs', w') \<Longrightarrow>
   Generate_loop L c m step msgs w tr = Generate_loop L c m (step + 1) msgs' w' (tr @ [rep])"
  by (subst Generate_loop.simps) simp

lemma loop_induct [case_names exit return continue]:
  assumes ex: "\<And>step msgs w tr. \<not> step < MaxStep c \<Longrightarrow> P step msgs w tr"
    and ret: "\<And>step msgs w tr rep w1 msg err msgs' w'.
        step < MaxStep c \<Longrightarrow> model_Generate m w msgs = (rep, w1) \<Longrightarrow>
        Generate_step L c rep msgs w1 = (Return msg err, msgs', w') \<Longrightarrow> P step msgs w tr"
    and cont: "\<And>step msgs w tr rep w1 msgs' w'.
        step < MaxStep c \<Longrightarrow> model_Generate m w msgs = (rep, w1) \<Longrightarrow>
        Generate_step L c rep msgs w1 = (Continue, msgs', w') \<Longrightarrow>
        P (step + 1) msgs' w' (tr @ [rep]) \<Longrightarrow> P step msgs w tr"
  shows "P step msgs w tr"
proof (induction n \<equiv> "nat (MaxStep c - step)" arbitrary: step msgs w tr rule: less_induct)
  case (less step msgs w tr)
  show ?case
  proof (cases "step < MaxStep c")
    case False
    then show ?thesis by (rule ex)
  next
    case True
    obtain rep w1 where g: "model_Generate m w msgs = (rep, w1)"
      by (cases "model_Generate m w msgs")
    obtain fl msgs' w' where s: "Generate_step L c rep msgs w1 = (fl, msgs', w')"
      by (cases "Generate_step L c rep msgs w1")
    show ?thesis
    proof (cases fl)
      case Continue
      have "P (step + 1) msgs' w' (tr @ [rep])"
        using True by (intro less) simp
      with True g s Continue show ?thesis by (auto intro: cont)
    next
      case (Return msg err)
      with True g s show ?thesis by (auto intro: ret)
    qed
  qed
qed

lemma loop_role: "Role (ret_msg (Generate_loop L c m step msgs w tr)) = RoleAssistant"
proof (induction step msgs w tr rule: loop_induct [of c _ m L])
  case (exit step msgs w tr)
  then show ?case by (simp add: loop_exit max_steps_result_def)
next
  case (return step msgs w tr rep w1 msg err msgs' w')
  then show ?case by (simp add: loop_return Generate_step_Return_role)
next
  case (continue step msgs w tr rep w1 msgs' w')
  then show ?case by (simp add: loop_continue)
qed

lemma loop_replies_prefix: "prefix tr (replies (Generate_loop L c m step msgs w tr))"
proof (induction step msgs w tr rule: loop_induct [of c _ m L])
  case (exit step msgs w tr)
  then show ?case by (simp add: loop_exit max_steps_result_def)
next
  case (return step msgs w tr rep w1 msg err msgs' w')
  then show ?case by (simp add: loop_return)
next
  case (continue step msgs w tr rep w1 msgs' w')
  then show ?case by (auto simp: loop_continue dest: append_prefixD)
qed

lemma loop_messages_prefix: "prefix msgs (messages (Generate_loop L c m step msgs w tr))"
proof (induction step msgs w tr rule: loop_induct [of c _ m L])
  case (exit step msgs w tr)
  then show ?case by (simp add: loop_exit max_steps_result_def)
next
  case (return step msgs w tr rep w1 msg err msgs' w')
  then show ?case by (simp add: loop_return Generate_step_prefix)
next
  case (continue step msgs w tr rep w1 msgs' w')
  then show ?case using Generate_step_prefix [of L c rep msgs w1 Continue msgs' w']
    by (auto simp: loop_continue intro: prefix_order.trans)
qed

lemma loop_calls_bound:
  "int (length (replies (Generate_loop L c m step msgs w tr))) \<le>
     int (length tr) + max 0 (MaxStep c - step)"
proof (induction step msgs w tr rule: loop_induct [of c _ m L])
  case (exit step msgs w tr)
  then show ?case by (simp add: loop_exit max_steps_result_def)
next
  case (return step msgs w tr rep w1 msg err msgs' w')
  then show ?case by (simp add: loop_return)
next
  case (continue step msgs w tr rep w1 msgs' w')
  then show ?case by (simp add: loop_continue)
qed

text \<open>A reply on which the loop body returns is the last one, and decides the result.\<close>

lemma loop_returning_reply:
  assumes "length tr \<le> k" "k < length (replies (Generate_loop L c m step msgs w tr))"
    and "\<And>ms v. Generate_step L c (replies (Generate_loop L c m step msgs w tr) ! k) ms v
            = (Return mm e, ms @ xs, v)"
  shows "length (replies (Generate_loop L c m step msgs w tr)) = Suc k
       \<and> ret_msg (Generate_loop L c m step msgs w tr) = mm
       \<and> ret_err (Generate_loop L c m step msgs w tr) = e
       \<and> ret_state (Generate_loop L c m step msgs w tr) = None
       \<and> suffix xs (messages (Generate_loop L c m step msgs w tr))"
  using assms
proof (induction step msgs w tr rule: loop_induct [of c _ m L])
  case (exit step msgs w tr)
  then show ?case by (simp add: loop_exit max_steps_result_def)
next
  case (return step msgs w tr rep w1 msg err msgs' w')
  have res: "Generate_loop L c m step msgs w tr =
     \<lparr>ret_msg = msg, ret_err = err, ret_state = None, messages = msgs', world = w',
      replies = tr @ [rep]\<rparr>"
    using return(1-3) by (rule loop_return)
  from return(4,5) have k: "k = length tr" by (simp add: res)
  from return(6) [of msgs w1] have "Generate_step L c rep msgs w1 = (Return mm e, msgs @ xs, w1)"
    by (simp add: res k)
  with return(3) show ?case by (auto simp: res k suffix_def)
next
  case (continue step msgs w tr rep w1 msgs' w')
  have res: "Generate_loop L c m step msgs w tr = Generate_loop L c m (step + 1) msgs' w' (tr @ [rep])"
    using continue(1-3) by (rule loop_continue)
  obtain zs where zs: "replies (Generate_loop L c m (step + 1) msgs' w' (tr @ [rep])) = (tr @ [rep]) @ zs"
    using loop_replies_prefix [of "tr @ [rep]" L c m "step + 1" msgs' w'] by (auto simp: prefix_def)
  have "k \<noteq> length tr"
  proof
    assume "k = length tr"
    then have "replies (Generate_loop L c m step msgs w tr) ! k = rep"
      by (simp add: res zs)
    with continue(7) [of msgs w1] continue(3) show False by simp
  qed
  with continue(5) have "length (tr @ [rep]) \<le> k" by simp
  then show ?case
    using continue(4) continue(6,7) unfolding res by blast
qed

lemma ReplaceAll_char:
  "ReplaceAll s [ch] new = concat (map (\<lambda>x. if x = ch then new else [x]) s)"
proof (induction s)
  case Nil
  show ?case by (subst ReplaceAll.simps) simp
next
  case (Cons x s)
  show ?case
  proof (cases "x = ch")
    case True
    show ?thesis by (subst ReplaceAll.simps) (simp add: True Cons)
  next
    case False
    then have "ch \<noteq> x" by auto
    with False show ?thesis by (subst ReplaceAll.simps) (simp add: Cons)
  qed
qed

lemma escapeString_eq: "escapeString s = concat (map escape_char s)"
  by (induction s) (simp_all add: escapeString_def ReplaceAll_char escape_char_def Let_def)

lemma loop_calls_lower:
  "step < MaxStep c \<Longrightarrow> Suc (length tr) \<le> length (replies (Generate_loop L c m step msgs w tr))"
proof -
  assume lt: "step < MaxStep c"
  obtain rep w1 where g: "model_Generate m w msgs = (rep, w1)"
    by (cases "model_Generate m w msgs")
  obtain fl msgs' w' where s: "Generate_step L c rep msgs w1 = (fl, msgs', w')"
    by (cases "Generate_step L c rep msgs w1")
  show ?thesis
  proof (cases fl)
    case Continue
    with lt g s have "Generate_loop L c m step msgs w tr = Generate_loop L c m (step + 1) msgs' w' (tr @ [rep])"
      by (simp add: loop_continue)
    then show ?thesis
      using loop_replies_prefix [of "tr @ [rep]" L c m "step + 1" msgs' w'] by (auto simp: prefix_def)
  next
    case (Return msg err)
    with lt g s show ?thesis by (simp add: loop_return)
  qed
qed

lemma Generate_step_assistant:
  "Role a = RoleAssistant \<Longrightarrow>
   Generate_step L c (Inr (Some a)) ms v = (Return a None, ms @ [a], v)"
  by (simp add: Generate_step_def)

lemma Generate_step_not_found:
  "Role a = RoleTool \<Longrightarrow> parseToolCall (json_Unmarshal L) (Content a) = (call, True) \<Longrightarrow>
   find (\<lambda>t. Name (Info t) = call_Name call) (Tools c) = None \<Longrightarrow>
   Generate_step L c (Inr (Some a)) ms v =
     (Return \<lparr>Role = RoleAssistant,
              Content = ''tool '' @ [CHR 0x27] @ call_Name call @ [CHR 0x27] @ '' not found''\<rparr> None,
      ms @ [a], v)"
  by (frule parseToolCall_ok_name) (simp add: Generate_step_def)

lemma Generate_step_executed:
  \<open>Role a = RoleTool \<Longrightarrow> parseToolCall (json_Unmarshal L) (Content a) = (call, True) \<Longrightarrow>
   find (\<lambda>t. Name (Info t) = call_Name call) (Tools c) = Some t \<Longrightarrow>
   Execute t v (call_Args call) = (res, v') \<Longrightarrow>
   Generate_step L c (Inr (Some a)) ms v =
     (Continue,
      ms @ [a, \<lparr>Role = RoleTool,
                Content =
                  (case res of
                     Inl e \<Rightarrow> ''{"error":"'' @ concat (map escape_char e) @ ''"}''
                   | Inr r \<Rightarrow>
                       (case json_Marshal L r of
                          Some b \<Rightarrow> b
                        | None \<Rightarrow> ''{"result":"'' @ fmt_v L r @ ''"}''))\<rparr>],
      v')\<close>
  by (frule parseToolCall_ok_name)
    (simp add: Generate_step_def escapeString_eq split: sum.splits option.splits)

text \<open>
  C8. Whatever the model, the tools and the input are, the message that \<^verbatim>\<open>Generate\<close>
  returns has the role assistant: on every way out (the model is nil, it fails, it
  returns nil, the tool call is invalid, the tool is not found, the assistant answers,
  the step budget is used up).
\<close>

theorem Generate_returns_assistant: "Role (ret_msg (Generate L r w h)) = RoleAssistant"
  by (cases "Model (conf r)") (simp_all add: Generate_def loop_role)

text \<open>
  C5. With a step budget \<open>N \<ge> 1\<close>, a call of \<^verbatim>\<open>Generate\<close> calls the model at most \<open>N\<close>
  times; and when the reply to call \<open>k + 1\<close> is an assistant message, that call is the
  last one, \<^verbatim>\<open>Generate\<close> returns this very message with a nil error, and the message is
  the last one of the history, which still starts with the earlier state and the input.
\<close>

theorem Generate_step_budget:
  assumes "1 \<le> MaxStep (conf r)"
  shows "int (length (replies (Generate L r w h))) \<le> MaxStep (conf r)
       \<and> (k < length (replies (Generate L r w h))
            \<and> replies (Generate L r w h) ! k = Inr (Some a) \<and> Role a = RoleAssistant
          \<longrightarrow> length (replies (Generate L r w h)) = Suc k
              \<and> ret_msg (Generate L r w h) = a
              \<and> ret_err (Generate L r w h) = None
              \<and> suffix [a] (messages (Generate L r w h))
              \<and> prefix (state r @ h) (messages (Generate L r w h)))"
proof (cases "Model (conf r)")
  case None
  with assms show ?thesis by (simp add: Generate_def)
next
  case (Some m)
  let ?res = "Generate_loop L (conf r) m 0 (state r @ h) w []"
  have res: "Generate L r w h = ?res"
    by (simp add: Generate_def Some)
  have bound: "int (length (replies ?res)) \<le> MaxStep (conf r)"
    using loop_calls_bound [of L "conf r" m 0 "state r @ h" w "[]"] assms by simp
  have last: "length (replies ?res) = Suc k \<and> ret_msg ?res = a \<and> ret_err ?res = None
      \<and> suffix [a] (messages ?res)"
    if "k < length (replies ?res)" "replies ?res ! k = Inr (Some a)" "Role a = RoleAssistant"
  proof -
    have "Generate_step L (conf r) (replies ?res ! k) ms v = (Return a None, ms @ [a], v)" for ms v
      using that(2,3) by (simp add: Generate_step_assistant)
    from loop_returning_reply [of "[]" k L "conf r" m 0 "state r @ h" w a None "[a]", OF _ that(1) this]
    show ?thesis by simp
  qed
  have "prefix (state r @ h) (messages ?res)"
    by (rule loop_messages_prefix)
  with bound last show ?thesis
    unfolding res by blast
qed

text \<open>
  C1, as the code has it. When the reply to call \<open>k + 1\<close> is a tool-role message whose
  content parses to a name that no registered tool bears, that call is the last one,
  whatever is left of the step budget: \<^verbatim>\<open>Generate\<close> returns the assistant message
  \<^verbatim>\<open>tool '<name>' not found\<close>, a nil error and a nil state, and the request is the last
  message of the history.
\<close>

theorem Generate_tool_not_found:
  assumes "k < length (replies (Generate L r w h))"
    and "replies (Generate L r w h) ! k = Inr (Some a)"
    and "Role a = RoleTool"
    and "parseToolCall (json_Unmarshal L) (Content a) = (call, True)"
    and "find (\<lambda>t. Name (Info t) = call_Name call) (Tools (conf r)) = None"
  shows "length (replies (Generate L r w h)) = Suc k
       \<and> ret_msg (Generate L r w h) =
           \<lparr>Role = RoleAssistant,
            Content = ''tool '' @ [CHR 0x27] @ call_Name call @ [CHR 0x27] @ '' not found''\<rparr>
       \<and> ret_err (Generate L r w h) = None
       \<and> ret_state (Generate L r w h) = None
       \<and> suffix [a] (messages (Generate L r w h))"
proof (cases "Model (conf r)")
  case None
  with assms(1) show ?thesis by (simp add: Generate_def)
next
  case (Some m)
  let ?res = "Generate_loop L (conf r) m 0 (state r @ h) w []"
  have res: "Generate L r w h = ?res"
    by (simp add: Generate_def Some)
  have "Generate_step L (conf r) (replies ?res ! k) ms v =
      (Return \<lparr>Role = RoleAssistant,
               Content = ''tool '' @ [CHR 0x27] @ call_Name call @ [CHR 0x27] @ '' not found''\<rparr> None,
       ms @ [a], v)" for ms v
    using assms(2-5) unfolding res by (simp add: Generate_step_not_found)
  from loop_returning_reply [of "[]" k L "conf r" m 0 "state r @ h" w _ None "[a]", OF _ _ this]
    assms(1)
  show ?thesis unfolding res by simp
qed

text \<open>A reply that asks for a registered tool makes the loop body do one round.\<close>

lemma registered_round:
  assumes "model_Generate m w msgs = (rep, w1)" and "requests_registered_tool L c rep"
  shows "\<exists>a y w2. rep = Inr (Some a) \<and> Role a = RoleTool \<and> Role y = RoleTool
           \<and> Generate_step L c rep msgs w1 = (Continue, msgs @ [a, y], w2)
           \<and> tool_round L c m (msgs, w) = (msgs @ [a, y], w2)"
proof -
  from assms(2) obtain a call t where rep: "rep = Inr (Some a)" and role: "Role a = RoleTool"
    and parse: "parseToolCall (json_Unmarshal L) (Content a) = (call, True)"
    and found: "find (\<lambda>t. Name (Info t) = call_Name call) (Tools c) = Some t"
    by (auto simp: requests_registered_tool_def split: sum.splits option.splits prod.splits)
  obtain res w2 where ex: "Execute t w1 (call_Args call) = (res, w2)"
    by (cases "Execute t w1 (call_Args call)")
  note step = Generate_step_executed [OF role parse found ex, of msgs]
  have round: "tool_round L c m (msgs, w) = snd (Generate_step L c rep msgs w1)"
    using assms(1) by (simp add: tool_round_def rep parse found ex step)
  from step round role show ?thesis
    unfolding rep by simp
qed

lemma loop_first_reply:
  assumes "step < MaxStep c" and "model_Generate m w msgs = (rep, w1)"
  shows "\<exists>zs. replies (Generate_loop L c m step msgs w tr) = tr @ rep # zs"
proof -
  obtain fl msgs' w' where s: "Generate_step L c rep msgs w1 = (fl, msgs', w')"
    by (cases "Generate_step L c rep msgs w1")
  show ?thesis
  proof (cases fl)
    case Continue
    with assms s have "Generate_loop L c m step msgs w tr = Generate_loop L c m (step + 1) msgs' w' (tr @ [rep])"
      by (simp add: loop_continue)
    then show ?thesis
      using loop_replies_prefix [of "tr @ [rep]" L c m "step + 1" msgs' w'] by (auto simp: prefix_def)
  next
    case (Return msg err)
    with assms s show ?thesis by (simp add: loop_return)
  qed
qed

lemma loop_tool_rounds:
  assumes "list_all (requests_registered_tool L c) (drop (length tr) (replies (Generate_loop L c m step msgs w tr)))"
  shows "Generate_loop L c m step msgs w tr =
      max_steps_result
        (fst ((tool_round L c m ^^ nat (MaxStep c - step)) (msgs, w)))
        (snd ((tool_round L c m ^^ nat (MaxStep c - step)) (msgs, w)))
        (tr @ map (\<lambda>i. model_reply m ((tool_round L c m ^^ i) (msgs, w))) [0..<nat (MaxStep c - step)])"
  using assms
proof (induction step msgs w tr rule: loop_induct [of c _ m L])
  case (exit step msgs w tr)
  then show ?case by (simp add: loop_exit)
next
  case (return step msgs w tr rep w1 msg err msgs' w')
  from loop_first_reply [OF return(1,2), of L tr] return(4)
  have "requests_registered_tool L c rep" by auto
  from registered_round [OF return(2) this] return(3) show ?case by auto
next
  case (continue step msgs w tr rep w1 msgs' w')
  note eq = loop_continue [OF continue(1-3), of tr]
  from loop_first_reply [OF continue(1,2), of L tr] obtain zs
    where zs: "replies (Generate_loop L c m step msgs w tr) = tr @ rep # zs" by blast
  with continue(5) have reg: "requests_registered_tool L c rep" and rest: "list_all (requests_registered_tool L c) zs"
    by auto
  from registered_round [OF continue(2) reg] continue(3)
  have round: "tool_round L c m (msgs, w) = (msgs', w')" by auto
  have n: "nat (MaxStep c - step) = Suc (nat (MaxStep c - (step + 1)))"
    using continue(1) by simp
  have "list_all (requests_registered_tool L c)
      (drop (length (tr @ [rep])) (replies (Generate_loop L c m (step + 1) msgs' w' (tr @ [rep]))))"
    using rest zs unfolding eq by simp
  from continue(4) [OF this] have ih: "Generate_loop L c m step msgs w tr =
      max_steps_result
        (fst ((tool_round L c m ^^ nat (MaxStep c - (step + 1))) (msgs', w')))
        (snd ((tool_round L c m ^^ nat (MaxStep c - (step + 1))) (msgs', w')))
        ((tr @ [rep]) @ map (\<lambda>i. model_reply m ((tool_round L c m ^^ i) (msgs', w'))) [0..<nat (MaxStep c - (step + 1))])"
    unfolding eq .
  have rep: "model_reply m (msgs, w) = rep"
    using continue(2) by (simp add: model_reply_def)
  have pow: "(tool_round L c m ^^ Suc i) (msgs, w) = (tool_round L c m ^^ i) (msgs', w')" for i
    by (simp only: funpow_Suc_right o_apply round)
  have upt: "map f [0..<Suc k] = f 0 # map (\<lambda>i. f (Suc i)) [0..<k]" for f :: "nat \<Rightarrow> reply" and k
    by (simp add: map_upt_Suc del: upt_Suc)
  show ?case
    unfolding ih n upt pow by (simp add: rep)
qed

lemma loop_tool_rounds_nth:
  assumes "list_all (requests_registered_tool L c) (drop (length tr) (replies (Generate_loop L c m step msgs w tr)))"
    and "i < nat (MaxStep c - step)"
  shows "replies (Generate_loop L c m step msgs w tr) ! (length tr + i) =
           Inr (Some (messages (Generate_loop L c m step msgs w tr) ! (length msgs + 2 * i)))
       \<and> Role (messages (Generate_loop L c m step msgs w tr) ! (length msgs + 2 * i)) = RoleTool
       \<and> Role (messages (Generate_loop L c m step msgs w tr) ! (length msgs + 2 * i + 1)) = RoleTool"
  using assms
proof (induction step msgs w tr arbitrary: i rule: loop_induct [of c _ m L])
  case (exit step msgs w tr)
  then show ?case by simp
next
  case (return step msgs w tr rep w1 msg err msgs' w')
  from loop_first_reply [OF return(1,2), of L tr] return(4)
  have "requests_registered_tool L c rep" by auto
  from registered_round [OF return(2) this] return(3) show ?case by auto
next
  case (continue step msgs w tr rep w1 msgs' w')
  note eq = loop_continue [OF continue(1-3), of tr]
  let ?res = "Generate_loop L c m (step + 1) msgs' w' (tr @ [rep])"
  from loop_first_reply [OF continue(1,2), of L tr] obtain zs
    where zs: "replies ?res = tr @ rep # zs" unfolding eq by blast
  with continue(5) have reg: "requests_registered_tool L c rep" and rest: "list_all (requests_registered_tool L c) zs"
    unfolding eq by auto
  from registered_round [OF continue(2) reg] continue(3)
  obtain a y where rep: "rep = Inr (Some a)" and roles: "Role a = RoleTool" "Role y = RoleTool"
    and msgs': "msgs' = msgs @ [a, y]" by auto
  obtain ms where ms: "messages ?res = msgs @ a # y # ms"
    using loop_messages_prefix [of msgs' L c m "step + 1" w' "tr @ [rep]"] by (auto simp: msgs' prefix_def)
  have hyp: "list_all (requests_registered_tool L c) (drop (length (tr @ [rep])) (replies ?res))"
    using rest zs by simp
  show ?case
  proof (cases i)
    case 0
    with zs ms roles show ?thesis unfolding eq by (simp add: rep nth_append)
  next
    case (Suc j)
    with continue(1,6) have "j < nat (MaxStep c - (step + 1))" by simp
    from continue(4) [OF hyp this] show ?thesis
      unfolding eq by (simp add: Suc msgs')
  qed
qed

lemma loop_tool_rounds_length:
  assumes "list_all (requests_registered_tool L c) (drop (length tr) (replies (Generate_loop L c m step msgs w tr)))"
  shows "length (messages (Generate_loop L c m step msgs w tr)) =
           length msgs + 2 * nat (MaxStep c - step)"
  using assms
proof (induction step msgs w tr rule: loop_induct [of c _ m L])
  case (exit step msgs w tr)
  then show ?case by (simp add: loop_exit max_steps_result_def)
next
  case (return step msgs w tr rep w1 msg err msgs' w')
  from loop_first_reply [OF return(1,2), of L tr] return(4)
  have "requests_registered_tool L c rep" by auto
  from registered_round [OF return(2) this] return(3) show ?case by auto
next
  case (continue step msgs w tr rep w1 msgs' w')
  note eq = loop_continue [OF continue(1-3), of tr]
  let ?res = "Generate_loop L c m (step + 1) msgs' w' (tr @ [rep])"
  from loop_first_reply [OF continue(1,2), of L tr] obtain zs
    where zs: "replies ?res = tr @ rep # zs" unfolding eq by blast
  with continue(5) have reg: "requests_registered_tool L c rep"
    and rest: "list_all (requests_registered_tool L c) zs"
    unfolding eq by auto
  from registered_round [OF continue(2) reg] continue(3)
  have len: "length msgs' = length msgs + 2" by auto
  have hyp: "list_all (requests_registered_tool L c) (drop (length (tr @ [rep])) (replies ?res))"
    using rest zs by simp
  have n: "nat (MaxStep c - step) = Suc (nat (MaxStep c - (step + 1)))"
    using continue(1) by simp
  from continue(4) [OF hyp] show ?case
    unfolding eq by (simp add: len n)
qed

text \<open>
  C3. With a step budget \<open>N \<ge> 1\<close>, when every reply that the model gives to the calls of
  this invocation is a tool-role message that parses to the name of a registered tool,
  \<^verbatim>\<open>Generate\<close> calls the model exactly \<open>N\<close> times and returns the assistant message
  \<^verbatim>\<open>max steps reached\<close> with a nil error and the state. The history and the world are
  those that \<open>N\<close> rounds leave, each round being one call of the model, the request
  appended, the named tool executed and its outcome appended: the replies are those of
  the model to the successive histories, the history starts with the earlier state and
  the input and has \<open>2 * N\<close> more messages, and for the call \<open>i + 1\<close> the message at
  position \<open>2 * i\<close> after the input is the request the model made and the next one is a
  tool-role message.
\<close>

theorem Generate_all_tool_requests:
  assumes "1 \<le> MaxStep (conf r)"
    and "Model (conf r) = Some m"
    and "list_all (requests_registered_tool L (conf r)) (replies (Generate L r w h))"
  shows "int (length (replies (Generate L r w h))) = MaxStep (conf r)
       \<and> replies (Generate L r w h) =
           map (\<lambda>i. model_reply m ((tool_round L (conf r) m ^^ i) (state r @ h, w)))
             [0..<nat (MaxStep (conf r))]
       \<and> ret_msg (Generate L r w h) = \<lparr>Role = RoleAssistant, Content = ''max steps reached''\<rparr>
       \<and> ret_err (Generate L r w h) = None
       \<and> ret_state (Generate L r w h) = Some (messages (Generate L r w h))
       \<and> (messages (Generate L r w h), world (Generate L r w h)) =
           (tool_round L (conf r) m ^^ nat (MaxStep (conf r))) (state r @ h, w)
       \<and> prefix (state r @ h) (messages (Generate L r w h))
       \<and> length (messages (Generate L r w h)) =
           length (state r @ h) + 2 * nat (MaxStep (conf r))
       \<and> (\<forall>i < nat (MaxStep (conf r)).
            replies (Generate L r w h) ! i =
              Inr (Some (messages (Generate L r w h) ! (length (state r @ h) + 2 * i)))
            \<and> Role (messages (Generate L r w h) ! (length (state r @ h) + 2 * i)) = RoleTool
            \<and> Role (messages (Generate L r w h) ! (length (state r @ h) + 2 * i + 1)) = RoleTool)"
proof -
  let ?res = "Generate_loop L (conf r) m 0 (state r @ h) w []"
  let ?n = "nat (MaxStep (conf r))"
  have res: "Generate L r w h = ?res"
    by (simp add: Generate_def assms(2))
  have reg: "list_all (requests_registered_tool L (conf r)) (drop (length ([] :: reply list)) (replies ?res))"
    using assms(3) unfolding res by simp
  note rounds = loop_tool_rounds [OF reg]
  have calls: "replies ?res =
      map (\<lambda>i. model_reply m ((tool_round L (conf r) m ^^ i) (state r @ h, w))) [0..<?n]"
    by (subst rounds) (simp add: max_steps_result_def)
  then have "length (replies ?res) = ?n"
    by simp
  with assms(1) have count: "int (length (replies ?res)) = MaxStep (conf r)"
    by simp
  have sentinel: "ret_msg ?res = \<lparr>Role = RoleAssistant, Content = ''max steps reached''\<rparr>"
    and nil: "ret_err ?res = None"
    and st: "ret_state ?res = Some (messages ?res)"
    and final: "(messages ?res, world ?res) = (tool_round L (conf r) m ^^ ?n) (state r @ h, w)"
    by (subst rounds, simp add: max_steps_result_def)+
  have start: "prefix (state r @ h) (messages ?res)"
    by (rule loop_messages_prefix)
  have each: "replies ?res ! i = Inr (Some (messages ?res ! (length (state r @ h) + 2 * i)))
      \<and> Role (messages ?res ! (length (state r @ h) + 2 * i)) = RoleTool
      \<and> Role (messages ?res ! (length (state r @ h) + 2 * i + 1)) = RoleTool" if "i < ?n" for i
    using loop_tool_rounds_nth [OF reg, of i] that by simp
  have len: "length (messages ?res) = length (state r @ h) + 2 * ?n"
    using loop_tool_rounds_length [OF reg] by simp
  from count calls sentinel nil st final start len each show ?thesis
    unfolding res by blast
qed
section \<open>The agent loop on concrete inputs\<close>

theorem Generate_returns_assistant_witness:
  \<open>Role (ret_msg (Generate example_stdlib
      (example_agent 2 (Some (constant_model (tool_request ''{"tool":"nope"}'')))) ()
      [user_message ''q''])) = RoleAssistant\<close>
  by (rule Generate_returns_assistant)

lemma scripted_run:
  \<open>Generate example_stdlib (example_agent 3 (Some scripted_model)) example_script
     [user_message ''q''] =
   \<lparr>ret_msg = \<lparr>Role = RoleAssistant, Content = ''done''\<rparr>, ret_err = None, ret_state = None,
    messages =
      [\<lparr>Role = RoleUser, Content = ''q''\<rparr>,
       \<lparr>Role = RoleTool, Content = ''{"tool":"echo","arguments":{"text":"hi"}}''\<rparr>,
       \<lparr>Role = RoleTool, Content = [CHR 0x22, CHR ''h'', CHR ''i'', CHR 0x22]\<rparr>,
       \<lparr>Role = RoleAssistant, Content = ''done''\<rparr>],
    world = [Inr (Some \<lparr>Role = RoleAssistant, Content = ''never asked for''\<rparr>)],
    replies =
      [Inr (Some \<lparr>Role = RoleTool, Content = ''{"tool":"echo","arguments":{"text":"hi"}}''\<rparr>),
       Inr (Some \<lparr>Role = RoleAssistant, Content = ''done''\<rparr>)]\<rparr>\<close>
  by code_simp

theorem Generate_step_budget_witness:
  \<open>int (length (replies (Generate example_stdlib (example_agent 3 (Some scripted_model))
      example_script [user_message ''q'']))) \<le> 3
   \<and> length (replies (Generate example_stdlib (example_agent 3 (Some scripted_model))
      example_script [user_message ''q''])) = 2
   \<and> ret_msg (Generate example_stdlib (example_agent 3 (Some scripted_model))
      example_script [user_message ''q'']) = \<lparr>Role = RoleAssistant, Content = ''done''\<rparr>
   \<and> ret_err (Generate example_stdlib (example_agent 3 (Some scripted_model))
      example_script [user_message ''q'']) = None\<close>
proof -
  let ?r = "example_agent 3 (Some scripted_model) :: (reply list, string) ReactAgent"
  let ?res = "Generate example_stdlib ?r example_script [user_message ''q'']"
  let ?a = "\<lparr>Role = RoleAssistant, Content = ''done''\<rparr>"
  have budget: "1 \<le> MaxStep (conf ?r)"
    by (simp add: example_agent_def example_config_def)
  have n: "MaxStep (conf ?r) = 3"
    by (simp add: example_agent_def example_config_def)
  have k: "1 < length (replies ?res)" and rep: "replies ?res ! 1 = Inr (Some ?a)"
    by (simp_all add: scripted_run)
  from Generate_step_budget [OF budget, of example_stdlib example_script \<open>[user_message ''q'']\<close> 1 ?a]
    k rep
  show ?thesis unfolding n by simp
qed


lemma nope_run:
  \<open>Generate example_stdlib
     (example_agent 8 (Some (constant_model (tool_request ''{"tool":"nope"}'')))) ()
     [user_message ''q''] =
   \<lparr>ret_msg = \<lparr>Role = RoleAssistant, Content = ''tool '' @ [CHR 0x27] @ ''nope'' @ [CHR 0x27] @ '' not found''\<rparr>,
    ret_err = None, ret_state = None,
    messages =
      [\<lparr>Role = RoleUser, Content = ''q''\<rparr>, \<lparr>Role = RoleTool, Content = ''{"tool":"nope"}''\<rparr>],
    world = (),
    replies = [Inr (Some \<lparr>Role = RoleTool, Content = ''{"tool":"nope"}''\<rparr>)]\<rparr>\<close>
  by code_simp

lemma parse_nope:
  \<open>parseToolCall decodeJSON ''{"tool":"nope"}'' = (\<lparr>call_Name = ''nope'', call_Args = None\<rparr>, True)\<close>
  by code_simp

lemma find_nope:
  "find (\<lambda>t. Name (Info t) = ''nope'')
     (Tools (example_config n m :: ('w, string) ReactAgentConfig)) = None"
  by (simp add: example_config_def echo_tool_def failing_tool_def)

theorem Generate_tool_not_found_witness:
  \<open>length (replies (Generate example_stdlib
      (example_agent 8 (Some (constant_model (tool_request ''{"tool":"nope"}'')))) ()
      [user_message ''q''])) = 1
   \<and> ret_msg (Generate example_stdlib
      (example_agent 8 (Some (constant_model (tool_request ''{"tool":"nope"}'')))) ()
      [user_message ''q'']) =
     \<lparr>Role = RoleAssistant, Content = ''tool '' @ [CHR 0x27] @ ''nope'' @ [CHR 0x27] @ '' not found''\<rparr>
   \<and> ret_state (Generate example_stdlib
      (example_agent 8 (Some (constant_model (tool_request ''{"tool":"nope"}'')))) ()
      [user_message ''q'']) = None\<close>
proof -
  let ?r = \<open>example_agent 8 (Some (constant_model (tool_request ''{"tool":"nope"}'')))
    :: (unit, string) ReactAgent\<close>
  let ?res = "Generate example_stdlib ?r () [user_message ''q'']"
  let ?a = \<open>\<lparr>Role = RoleTool, Content = ''{"tool":"nope"}''\<rparr>\<close>
  have k: "0 < length (replies ?res)" and rep: "replies ?res ! 0 = Inr (Some ?a)"
    by (simp_all add: nope_run)
  have role: "Role ?a = RoleTool" by simp
  have parse: "parseToolCall (json_Unmarshal example_stdlib) (Content ?a) =
      (\<lparr>call_Name = ''nope'', call_Args = None\<rparr>, True)"
    by (simp add: example_stdlib_def parse_nope)
  have absent: "find (\<lambda>t. Name (Info t) = call_Name \<lparr>call_Name = ''nope'', call_Args = None\<rparr>)
      (Tools (conf ?r)) = None"
    by (simp add: example_agent_def find_nope)
  from Generate_tool_not_found [OF k rep role parse absent]
  show ?thesis by simp
qed

text \<open>
  C1 as it is stated fails: the model asks for the tool \<^verbatim>\<open>nope\<close>, which is not registered,
  with seven steps of the budget left, and the error that \<^verbatim>\<open>Generate\<close> returns is nil.
\<close>

theorem Generate_tool_not_found_error_is_nil:
  \<open>replies (Generate example_stdlib
      (example_agent 8 (Some (constant_model (tool_request ''{"tool":"nope"}'')))) ()
      [user_message ''q'']) = [tool_request ''{"tool":"nope"}'']
   \<and> parseToolCall decodeJSON ''{"tool":"nope"}'' = (\<lparr>call_Name = ''nope'', call_Args = None\<rparr>, True)
   \<and> \<not> requests_registered_tool example_stdlib
        (example_config 8 (Some (constant_model (tool_request ''{"tool":"nope"}''))))
        (tool_request ''{"tool":"nope"}'')
   \<and> Content (ret_msg (Generate example_stdlib
      (example_agent 8 (Some (constant_model (tool_request ''{"tool":"nope"}'')))) ()
      [user_message ''q''])) = ''tool '' @ [CHR 0x27] @ ''nope'' @ [CHR 0x27] @ '' not found''
   \<and> ret_err (Generate example_stdlib
      (example_agent 8 (Some (constant_model (tool_request ''{"tool":"nope"}'')))) ()
      [user_message ''q'']) = None\<close>
proof -
  have \<open>\<not> requests_registered_tool example_stdlib
        (example_config 8 (Some (constant_model (tool_request ''{"tool":"nope"}''))))
        (tool_request ''{"tool":"nope"}'')\<close>
    by (simp add: requests_registered_tool_def tool_request_def example_stdlib_def parse_nope
        find_nope)
  then show ?thesis
    unfolding nope_run by (simp add: parse_nope tool_request_def)
qed

lemma tool_script_run:
  \<open>Generate example_stdlib (example_agent 2 (Some scripted_model)) tool_script
     [user_message ''q''] =
   \<lparr>ret_msg = \<lparr>Role = RoleAssistant, Content = ''max steps reached''\<rparr>, ret_err = None,
    ret_state =
      Some [\<lparr>Role = RoleUser, Content = ''q''\<rparr>,
            \<lparr>Role = RoleTool, Content = ''{"tool":"echo","arguments":{"text":"hi"}}''\<rparr>,
            \<lparr>Role = RoleTool, Content = [CHR 0x22, CHR ''h'', CHR ''i'', CHR 0x22]\<rparr>,
            \<lparr>Role = RoleTool, Content = ''{"name":"fail"}''\<rparr>,
            \<lparr>Role = RoleTool, Content = ''{"error":"a'' @ [CHR 0x09] @ ''b"}''\<rparr>],
    messages =
      [\<lparr>Role = RoleUser, Content = ''q''\<rparr>,
       \<lparr>Role = RoleTool, Content = ''{"tool":"echo","arguments":{"text":"hi"}}''\<rparr>,
       \<lparr>Role = RoleTool, Content = [CHR 0x22, CHR ''h'', CHR ''i'', CHR 0x22]\<rparr>,
       \<lparr>Role = RoleTool, Content = ''{"name":"fail"}''\<rparr>,
       \<lparr>Role = RoleTool, Content = ''{"error":"a'' @ [CHR 0x09] @ ''b"}''\<rparr>],
    world = [Inr (Some \<lparr>Role = RoleAssistant, Content = ''too late''\<rparr>)],
    replies =
      [Inr (Some \<lparr>Role = RoleTool, Content = ''{"tool":"echo","arguments":{"text":"hi"}}''\<rparr>),
       Inr (Some \<lparr>Role = RoleTool, Content = ''{"name":"fail"}''\<rparr>)]\<rparr>\<close>
  by code_simp

lemma parse_echo_request:
  \<open>parseToolCall decodeJSON ''{"tool":"echo","arguments":{"text":"hi"}}'' =
     (\<lparr>call_Name = ''echo'', call_Args = Some [(''text'', JStr ''hi'')]\<rparr>, True)\<close>
  by code_simp

lemma parse_fail_request:
  \<open>parseToolCall decodeJSON ''{"name":"fail"}'' = (\<lparr>call_Name = ''fail'', call_Args = None\<rparr>, True)\<close>
  by code_simp

theorem Generate_all_tool_requests_witness:
  \<open>int (length (replies (Generate example_stdlib (example_agent 2 (Some scripted_model))
      tool_script [user_message ''q'']))) = 2
   \<and> ret_msg (Generate example_stdlib (example_agent 2 (Some scripted_model))
      tool_script [user_message ''q'']) = \<lparr>Role = RoleAssistant, Content = ''max steps reached''\<rparr>
   \<and> ret_err (Generate example_stdlib (example_agent 2 (Some scripted_model))
      tool_script [user_message ''q'']) = None
   \<and> length (messages (Generate example_stdlib (example_agent 2 (Some scripted_model))
      tool_script [user_message ''q''])) = 5
   \<and> ret_state (Generate example_stdlib (example_agent 2 (Some scripted_model))
      tool_script [user_message ''q'']) =
      Some (messages (Generate example_stdlib (example_agent 2 (Some scripted_model))
        tool_script [user_message ''q'']))\<close>
proof -
  let ?r = "example_agent 2 (Some scripted_model) :: (reply list, string) ReactAgent"
  let ?res = "Generate example_stdlib ?r tool_script [user_message ''q'']"
  have budget: "1 \<le> MaxStep (conf ?r)" and model: "Model (conf ?r) = Some scripted_model"
    by (simp_all add: example_agent_def example_config_def)
  have made: "list_all (requests_registered_tool example_stdlib (conf ?r)) (replies ?res)"
    unfolding tool_script_run
    by (simp add: requests_registered_tool_def example_stdlib_def parse_echo_request
        parse_fail_request example_agent_def example_config_def echo_tool_def failing_tool_def)
  have n: "MaxStep (conf ?r) = 2" and s: "state ?r = []"
    by (simp_all add: example_agent_def example_config_def)
  note facts = Generate_all_tool_requests [OF budget model made]
  show ?thesis
  proof (intro conjI)
    show "int (length (replies ?res)) = 2"
      using facts [THEN conjunct1] unfolding n .
    show "ret_msg ?res = \<lparr>Role = RoleAssistant, Content = ''max steps reached''\<rparr>"
      using facts by blast
    show "ret_err ?res = None"
      using facts by blast
    show "length (messages ?res) = 5"
      using facts unfolding n s by (simp add: user_message_def)
    show "ret_state ?res = Some (messages ?res)"
      using facts by blast
  qed
qed

text \<open>
  C6, as the code has it. When the model asks for a registered tool, the iteration does
  not end the loop: the request and a tool-role message with the outcome of the tool are
  appended to the history and the loop goes on with the next step, which calls the model
  again if the budget allows. When the tool fails, the content of the tool-role message
  is \<^verbatim>\<open>{"error":"<message>"}\<close> with every backslash, double quote and newline of the message
  escaped by a backslash and every other byte copied; when it succeeds, the content is
  the serialized result or, if serialization fails, \<^verbatim>\<open>{"result":"<result>"}\<close> with the
  result formatted by \<^verbatim>\<open>%v\<close>.
\<close>

theorem Generate_tool_result_fed_back:
  assumes \<open>step < MaxStep c\<close>
    and \<open>model_Generate m w msgs = (Inr (Some a), w1)\<close>
    and \<open>Role a = RoleTool\<close>
    and \<open>parseToolCall (json_Unmarshal L) (Content a) = (call, True)\<close>
    and \<open>find (\<lambda>t. Name (Info t) = call_Name call) (Tools c) = Some t\<close>
    and \<open>Execute t w1 (call_Args call) = (res, w2)\<close>
  shows \<open>Generate_loop L c m step msgs w tr =
      Generate_loop L c m (step + 1)
        (msgs @ [a, \<lparr>Role = RoleTool,
                     Content =
                       (case res of
                          Inl e \<Rightarrow> ''{"error":"'' @ concat (map escape_char e) @ ''"}''
                        | Inr v \<Rightarrow>
                            (case json_Marshal L v of
                               Some b \<Rightarrow> b
                             | None \<Rightarrow> ''{"result":"'' @ fmt_v L v @ ''"}''))\<rparr>])
        w2 (tr @ [Inr (Some a)])
    \<and> (step + 1 < MaxStep c \<longrightarrow>
         length tr + 2 \<le> length (replies (Generate_loop L c m step msgs w tr)))\<close>
proof -
  let ?msgs = \<open>msgs @ [a, \<lparr>Role = RoleTool,
                     Content =
                       (case res of
                          Inl e \<Rightarrow> ''{"error":"'' @ concat (map escape_char e) @ ''"}''
                        | Inr v \<Rightarrow>
                            (case json_Marshal L v of
                               Some b \<Rightarrow> b
                             | None \<Rightarrow> ''{"result":"'' @ fmt_v L v @ ''"}''))\<rparr>]\<close>
  have step: "Generate_step L c (Inr (Some a)) msgs w1 = (Continue, ?msgs, w2)"
    using assms(3-6) by (rule Generate_step_executed)
  have eq: "Generate_loop L c m step msgs w tr =
      Generate_loop L c m (step + 1) ?msgs w2 (tr @ [Inr (Some a)])"
    using assms(1,2) step by (rule loop_continue)
  have "length tr + 2 \<le> length (replies (Generate_loop L c m step msgs w tr))"
    if "step + 1 < MaxStep c"
    using loop_calls_lower [OF that, of "tr @ [Inr (Some a)]" L m ?msgs w2] unfolding eq by simp
  with eq show ?thesis by blast
qed

lemma failing_run:
  \<open>Generate example_stdlib
     (example_agent 1 (Some (constant_model (tool_request ''{"name":"fail"}'')))) () [] =
   \<lparr>ret_msg = \<lparr>Role = RoleAssistant, Content = ''max steps reached''\<rparr>, ret_err = None,
    ret_state =
      Some [\<lparr>Role = RoleTool, Content = ''{"name":"fail"}''\<rparr>,
            \<lparr>Role = RoleTool, Content = ''{"error":"a'' @ [CHR 0x09] @ ''b"}''\<rparr>],
    messages =
      [\<lparr>Role = RoleTool, Content = ''{"name":"fail"}''\<rparr>,
       \<lparr>Role = RoleTool, Content = ''{"error":"a'' @ [CHR 0x09] @ ''b"}''\<rparr>],
    world = (),
    replies = [Inr (Some \<lparr>Role = RoleTool, Content = ''{"name":"fail"}''\<rparr>)]\<rparr>\<close>
  by code_simp

text \<open>
  C6 as it is stated fails on the control characters: the registered tool \<^verbatim>\<open>fail\<close> fails
  with a message that holds a tab, and the tab stands unescaped in the content that is
  fed back.
\<close>

theorem escapeString_keeps_tab:
  \<open>escapeString [CHR ''a'', CHR 0x09, CHR ''b''] = [CHR ''a'', CHR 0x09, CHR ''b'']
   \<and> messages (Generate example_stdlib
        (example_agent 1 (Some (constant_model (tool_request ''{"name":"fail"}'')))) () []) =
      [\<lparr>Role = RoleTool, Content = ''{"name":"fail"}''\<rparr>,
       \<lparr>Role = RoleTool, Content = ''{"error":"a'' @ [CHR 0x09] @ ''b"}''\<rparr>]\<close>
  unfolding failing_run by (simp add: escapeString_eq escape_char_def)


lemma parse_fail:
  \<open>parseToolCall decodeJSON ''{"name":"fail"}'' = (\<lparr>call_Name = ''fail'', call_Args = None\<rparr>, True)\<close>
  by code_simp

lemma parse_echo:
  \<open>parseToolCall decodeJSON ''{"tool":"echo","arguments":{"text":"hi"}}'' =
     (\<lparr>call_Name = ''echo'', call_Args = Some [(''text'', JStr ''hi'')]\<rparr>, True)\<close>
  by code_simp

theorem Generate_tool_result_fed_back_witness:
  \<open>Generate_loop example_stdlib (example_config 3 (Some scripted_model)) scripted_model 0
      [user_message ''q''] [tool_request ''{"name":"fail"}'', assistant_reply ''done''] [] =
    Generate_loop example_stdlib (example_config 3 (Some scripted_model)) scripted_model (0 + 1)
      ([user_message ''q''] @
       [\<lparr>Role = RoleTool, Content = ''{"name":"fail"}''\<rparr>,
        \<lparr>Role = RoleTool, Content = ''{"error":"a'' @ [CHR 0x09] @ ''b"}''\<rparr>])
      [assistant_reply ''done''] ([] @ [tool_request ''{"name":"fail"}''])
   \<and> 2 \<le> length (replies (Generate_loop example_stdlib (example_config 3 (Some scripted_model))
      scripted_model 0 [user_message ''q'']
      [tool_request ''{"name":"fail"}'', assistant_reply ''done''] []))
   \<and> Generate_loop broken_stdlib (example_config 3 (Some scripted_model)) scripted_model 0
      [user_message ''q'']
      [tool_request ''{"tool":"echo","arguments":{"text":"hi"}}'', assistant_reply ''done''] [] =
    Generate_loop broken_stdlib (example_config 3 (Some scripted_model)) scripted_model (0 + 1)
      ([user_message ''q''] @
       [\<lparr>Role = RoleTool, Content = ''{"tool":"echo","arguments":{"text":"hi"}}''\<rparr>,
        \<lparr>Role = RoleTool, Content = ''{"result":"hi"}''\<rparr>])
      [assistant_reply ''done'']
      ([] @ [tool_request ''{"tool":"echo","arguments":{"text":"hi"}}''])\<close>
proof -
  let ?c = "example_config 3 (Some scripted_model) :: (reply list, string) ReactAgentConfig"
  let ?a = \<open>\<lparr>Role = RoleTool, Content = ''{"name":"fail"}''\<rparr>\<close>
  let ?b = \<open>\<lparr>Role = RoleTool, Content = ''{"tool":"echo","arguments":{"text":"hi"}}''\<rparr>\<close>
  let ?e = "[CHR ''a'', CHR 0x09, CHR ''b'']"
  have budget: "0 < MaxStep ?c" and more: "0 + 1 < MaxStep ?c"
    by (simp_all add: example_config_def)
  have role: "Role ?a = RoleTool" "Role ?b = RoleTool"
    by simp_all
  have reply_a: \<open>model_Generate scripted_model
      [tool_request ''{"name":"fail"}'', assistant_reply ''done''] [user_message ''q''] =
      (Inr (Some ?a), [assistant_reply ''done''])\<close>
    by (simp add: scripted_model_def tool_request_def)
  have parse_a: "parseToolCall (json_Unmarshal example_stdlib) (Content ?a) =
      (\<lparr>call_Name = ''fail'', call_Args = None\<rparr>, True)"
    by (simp add: example_stdlib_def parse_fail)
  have find_a: "find (\<lambda>t. Name (Info t) = call_Name \<lparr>call_Name = ''fail'', call_Args = None\<rparr>)
      (Tools ?c) = Some (failing_tool ?e)"
    by (simp add: example_config_def echo_tool_def failing_tool_def)
  have exec_a: "Execute (failing_tool ?e) [assistant_reply ''done'']
      (call_Args \<lparr>call_Name = ''fail'', call_Args = None\<rparr>) = (Inl ?e, [assistant_reply ''done''])"
    by (simp add: failing_tool_def)
  have reply_b: \<open>model_Generate scripted_model
      [tool_request ''{"tool":"echo","arguments":{"text":"hi"}}'', assistant_reply ''done'']
      [user_message ''q''] = (Inr (Some ?b), [assistant_reply ''done''])\<close>
    by (simp add: scripted_model_def tool_request_def)
  have parse_b: "parseToolCall (json_Unmarshal broken_stdlib) (Content ?b) =
      (\<lparr>call_Name = ''echo'', call_Args = Some [(''text'', JStr ''hi'')]\<rparr>, True)"
    by (simp add: broken_stdlib_def parse_echo)
  have find_b: "find (\<lambda>t. Name (Info t) =
        call_Name \<lparr>call_Name = ''echo'', call_Args = Some [(''text'', JStr ''hi'')]\<rparr>)
      (Tools ?c) = Some echo_tool"
    by (simp add: example_config_def echo_tool_def)
  have exec_b: "Execute echo_tool [assistant_reply ''done'']
      (call_Args \<lparr>call_Name = ''echo'', call_Args = Some [(''text'', JStr ''hi'')]\<rparr>) =
      (Inr ''hi'', [assistant_reply ''done''])"
    by (simp add: echo_tool_def)
  note fail = Generate_tool_result_fed_back [OF budget reply_a role(1) parse_a find_a exec_a, of "[]"]
  note echo = Generate_tool_result_fed_back [OF budget reply_b role(2) parse_b find_b exec_b, of "[]"]
  show ?thesis
  proof (intro conjI)
    show \<open>Generate_loop example_stdlib ?c scripted_model 0
        [user_message ''q''] [tool_request ''{"name":"fail"}'', assistant_reply ''done''] [] =
      Generate_loop example_stdlib ?c scripted_model (0 + 1)
        ([user_message ''q''] @
         [\<lparr>Role = RoleTool, Content = ''{"name":"fail"}''\<rparr>,
          \<lparr>Role = RoleTool, Content = ''{"error":"a'' @ [CHR 0x09] @ ''b"}''\<rparr>])
        [assistant_reply ''done''] ([] @ [tool_request ''{"name":"fail"}''])\<close>
      using fail [THEN conjunct1] by (simp add: escape_char_def tool_request_def)
    show \<open>2 \<le> length (replies (Generate_loop example_stdlib ?c scripted_model 0
        [user_message ''q''] [tool_request ''{"name":"fail"}'', assistant_reply ''done''] []))\<close>
      using fail [THEN conjunct2] more by (simp add: tool_request_def)
    show \<open>Generate_loop broken_stdlib ?c scripted_model 0 [user_message ''q'']
        [tool_request ''{"tool":"echo","arguments":{"text":"hi"}}'', assistant_reply ''done''] [] =
      Generate_loop broken_stdlib ?c scripted_model (0 + 1)
        ([user_message ''q''] @
         [\<lparr>Role = RoleTool, Content = ''{"tool":"echo","arguments":{"text":"hi"}}''\<rparr>,
          \<lparr>Role = RoleTool, Content = ''{"result":"hi"}''\<rparr>])
        [assistant_reply ''done'']
        ([] @ [tool_request ''{"tool":"echo","arguments":{"text":"hi"}}''])\<close>
      using echo [THEN conjunct1] by (simp add: tool_request_def broken_stdlib_def)
  qed
qed

lemma NewReactAgent_agent:
  "fst (NewReactAgent w c opts) =
     (let ra = foldl (\<lambda>ra opt. opt ra) \<lparr>state = [], conf = c\<rparr> opts
      in if MaxStep (conf ra) = 0 then ra\<lparr>conf := (conf ra)\<lparr>MaxStep := 8\<rparr>\<rparr> else ra)"
  by (simp add: NewReactAgent_def Let_def)

lemma Generate_negative_budget:
  assumes "MaxStep (conf r) < 0" and "Model (conf r) = Some m"
  shows "Generate L r w h = max_steps_result (state r @ h) w []"
  using assms by (simp add: Generate_def loop_exit)

lemma Generate_calls_negative_budget:
  assumes "MaxStep (conf r) < 0" and "Model (conf r) = Some m"
  shows "list_all (\<lambda>res. replies res = []
            \<and> ret_msg res = \<lparr>Role = RoleAssistant, Content = ''max steps reached''\<rparr>
            \<and> ret_err res = None)
          (Generate_calls L r w hs)"
  using assms
proof (induction hs arbitrary: r w)
  case Nil
  show ?case by simp
next
  case (Cons h hs)
  have now: "Generate L r w h = max_steps_result (state r @ h) w []"
    using Cons.prems by (rule Generate_negative_budget)
  have later: "list_all (\<lambda>res. replies res = []
            \<and> ret_msg res = \<lparr>Role = RoleAssistant, Content = ''max steps reached''\<rparr>
            \<and> ret_err res = None)
          (Generate_calls L (r\<lparr>state := messages (Generate L r w h)\<rparr>) (world (Generate L r w h)) hs)"
    using Cons.prems by (intro Cons.IH) simp_all
  show ?case
    using later by (simp add: Let_def now max_steps_result_def)
qed

text \<open>
  C10, as the code has it. \<^verbatim>\<open>NewReactAgent\<close> replaces a step budget of zero by 8 and leaves
  every other one, a negative one too, as the configuration and the options set it. When
  the budget is negative and the model is not nil, every later call of \<^verbatim>\<open>Generate\<close>
  returns the assistant message \<^verbatim>\<open>max steps reached\<close> with a nil error and without calling
  the model; when the model is nil, \<^verbatim>\<open>Generate\<close> returns \<^verbatim>\<open>model not initialized\<close>, whatever
  the budget is.
\<close>

theorem NewReactAgent_negative_MaxStep:
  assumes "ra = foldl (\<lambda>ra opt. opt ra) \<lparr>state = [], conf = c\<rparr> opts"
  shows "MaxStep (conf (fst (NewReactAgent w c opts))) =
           (if MaxStep (conf ra) = 0 then 8 else MaxStep (conf ra))
       \<and> (MaxStep (conf ra) < 0 \<and> Model (conf ra) \<noteq> None \<longrightarrow>
            fst (NewReactAgent w c opts) = ra
            \<and> list_all (\<lambda>res. replies res = []
                  \<and> ret_msg res = \<lparr>Role = RoleAssistant, Content = ''max steps reached''\<rparr>
                  \<and> ret_err res = None)
                (Generate_calls L (fst (NewReactAgent w c opts)) v hs))
       \<and> (Model (conf ra) = None \<longrightarrow>
            ret_msg (Generate L (fst (NewReactAgent w c opts)) v h) =
              \<lparr>Role = RoleAssistant, Content = ''model not initialized''\<rparr>
            \<and> ret_err (Generate L (fst (NewReactAgent w c opts)) v h) = None
            \<and> replies (Generate L (fst (NewReactAgent w c opts)) v h) = [])"
proof (intro conjI impI)
  show "MaxStep (conf (fst (NewReactAgent w c opts))) =
      (if MaxStep (conf ra) = 0 then 8 else MaxStep (conf ra))"
    by (simp add: NewReactAgent_agent assms Let_def)
next
  assume neg: "MaxStep (conf ra) < 0 \<and> Model (conf ra) \<noteq> None"
  then show same: "fst (NewReactAgent w c opts) = ra"
    by (simp add: NewReactAgent_agent assms Let_def)
  from neg obtain m where "Model (conf ra) = Some m" by auto
  with neg show "list_all (\<lambda>res. replies res = []
        \<and> ret_msg res = \<lparr>Role = RoleAssistant, Content = ''max steps reached''\<rparr>
        \<and> ret_err res = None)
      (Generate_calls L (fst (NewReactAgent w c opts)) v hs)"
    unfolding same by (intro Generate_calls_negative_budget) simp_all
next
  assume nil: "Model (conf ra) = None"
  then have "Model (conf (fst (NewReactAgent w c opts))) = None"
    by (simp add: NewReactAgent_agent assms Let_def)
  then show "ret_msg (Generate L (fst (NewReactAgent w c opts)) v h) =
      \<lparr>Role = RoleAssistant, Content = ''model not initialized''\<rparr>"
    and "ret_err (Generate L (fst (NewReactAgent w c opts)) v h) = None"
    and "replies (Generate L (fst (NewReactAgent w c opts)) v h) = []"
    by (simp_all add: Generate_def)
qed

theorem NewReactAgent_negative_MaxStep_witness:
  \<open>MaxStep (conf (fst (NewReactAgent [assistant_reply ''done'']
      (example_config 5 (Some scripted_model)) [WithMaxStep (- 3)]))) = - 3
   \<and> list_all (\<lambda>res. replies res = []
          \<and> ret_msg res = \<lparr>Role = RoleAssistant, Content = ''max steps reached''\<rparr>
          \<and> ret_err res = None)
        (Generate_calls example_stdlib
          (fst (NewReactAgent [assistant_reply ''done'']
             (example_config 5 (Some scripted_model)) [WithMaxStep (- 3)]))
          [assistant_reply ''done''] [[user_message ''q''], [user_message ''again'']])
   \<and> MaxStep (conf (fst (NewReactAgent [assistant_reply ''done'']
      (example_config 0 (Some scripted_model)) []))) = 8\<close>
proof -
  let ?c = "example_config 5 (Some scripted_model) :: (reply list, string) ReactAgentConfig"
  let ?z = "example_config 0 (Some scripted_model) :: (reply list, string) ReactAgentConfig"
  let ?ra = "\<lparr>state = [], conf = ?c\<lparr>MaxStep := - 3\<rparr>\<rparr>"
  have ra: "?ra = foldl (\<lambda>ra opt. opt ra) \<lparr>state = [], conf = ?c\<rparr> [WithMaxStep (- 3)]"
    by (simp add: WithMaxStep_def)
  have za: "\<lparr>state = [], conf = ?z\<rparr> = foldl (\<lambda>ra opt. opt ra) \<lparr>state = [], conf = ?z\<rparr> []"
    by simp
  have neg: "MaxStep (conf ?ra) < 0 \<and> Model (conf ?ra) \<noteq> None"
    by (simp add: example_config_def)
  have zero: "MaxStep (conf \<lparr>state = [], conf = ?z\<rparr>) = 0"
    by (simp add: example_config_def)
  note a = NewReactAgent_negative_MaxStep [OF ra, of \<open>[assistant_reply ''done'']\<close> example_stdlib
      \<open>[assistant_reply ''done'']\<close> \<open>[[user_message ''q''], [user_message ''again'']]\<close>]
  note b = NewReactAgent_negative_MaxStep [OF za, of \<open>[assistant_reply ''done'']\<close>]
  show ?thesis
  proof (intro conjI)
    show "MaxStep (conf (fst (NewReactAgent [assistant_reply ''done''] ?c [WithMaxStep (- 3)]))) = - 3"
      using a [THEN conjunct1] by simp
    show "list_all (\<lambda>res. replies res = []
          \<and> ret_msg res = \<lparr>Role = RoleAssistant, Content = ''max steps reached''\<rparr>
          \<and> ret_err res = None)
        (Generate_calls example_stdlib
          (fst (NewReactAgent [assistant_reply ''done''] ?c [WithMaxStep (- 3)]))
          [assistant_reply ''done''] [[user_message ''q''], [user_message ''again'']])"
      using a [THEN conjunct2, THEN conjunct1] neg by blast
    show "MaxStep (conf (fst (NewReactAgent [assistant_reply ''done''] ?z []))) = 8"
      using b [THEN conjunct1] zero by simp
  qed
qed

text \<open>
  C10 as it is stated fails when the model is nil: the budget is \<open>-1\<close>, and \<^verbatim>\<open>Generate\<close>
  returns \<^verbatim>\<open>model not initialized\<close>, not \<^verbatim>\<open>max steps reached\<close>.
\<close>

theorem Generate_negative_budget_nil_model:
  \<open>MaxStep (conf (fst (NewReactAgent () (example_config (- 1) None) []))) = - 1
   \<and> ret_msg (Generate example_stdlib (fst (NewReactAgent () (example_config (- 1) None) [])) ()
        [user_message ''q'']) = \<lparr>Role = RoleAssistant, Content = ''model not initialized''\<rparr>
   \<and> ret_msg (Generate example_stdlib (fst (NewReactAgent () (example_config (- 1) None) [])) ()
        [user_message ''q'']) \<noteq> \<lparr>Role = RoleAssistant, Content = ''max steps reached''\<rparr>\<close>
  by (simp add: NewReactAgent_def Generate_def example_config_def)

section \<open>Properties of the stream decoder\<close>

lemma ReadString_line:
  assumes "d \<notin> set l"
  shows "ReadString (l @ d # rest) d = (l @ [d], False, rest)"
proof -
  from assms have "takeWhile (\<lambda>x. x \<noteq> d) (l @ d # rest) = l"
    by (induction l) auto
  moreover from assms have "dropWhile (\<lambda>x. x \<noteq> d) (l @ d # rest) = d # rest"
    by (induction l) auto
  ultimately show ?thesis
    by (simp add: ReadString_def)
qed

lemma ReadString_eof: "d \<notin> set buf \<Longrightarrow> ReadString buf d = (buf, True, [])"
  by (simp add: ReadString_def)

lemma TrimRight_newline:
  "TrimRight (l @ [CHR 0x0A]) [CHR 0x0D, CHR 0x0A] = TrimRight l [CHR 0x0D, CHR 0x0A]"
  by (simp add: TrimRight_def)

lemma Stream_lines_eof:
  "CHR 0x0A \<notin> set buf \<Longrightarrow> Stream_lines um buf out = (Break, [], out)"
  by (subst Stream_lines.simps) (simp add: ReadString_eof)

text \<open>The inner loop on a buffer that starts with a complete line.\<close>

lemma Stream_lines_line:
  assumes "CHR 0x0A \<notin> set l"
  shows "Stream_lines um (l @ CHR 0x0A # rest) out =
     (let line = TrimRight l [CHR 0x0D, CHR 0x0A]
      in if line = [] \<or> HasPrefix line '':'' then Stream_lines um rest out
         else if \<not> HasPrefix line ''data: '' then Stream_lines um rest out
         else
           (let data = TrimPrefix line ''data: ''
            in if data = ''[DONE]'' then (Returned, rest, out)
               else
                 (case um data of
                    None \<Rightarrow> Stream_lines um rest out
                  | Some streamResp \<Rightarrow>
                      if 0 < length (Choices streamResp) then
                        (let choice = hd (Choices streamResp)
                         in if qwen_Content (Delta choice) \<noteq> [] then
                              Stream_lines um rest
                                (out @ [\<lparr>Role = RoleAssistant,
                                         Content = qwen_Content (Delta choice)\<rparr>])
                            else Stream_lines um rest out)
                      else Stream_lines um rest out)))"
  by (subst Stream_lines.simps) (simp add: ReadString_line [OF assms] TrimRight_newline)





lemma Stream_lines_step:
  assumes "CHR 0x0A \<notin> set l"
  shows "Stream_lines um (l @ CHR 0x0A # rest) out = (Returned, rest, out)
       \<or> (\<exists>out'. Stream_lines um (l @ CHR 0x0A # rest) out = Stream_lines um rest out')"
  unfolding Stream_lines_line [OF assms] by (auto simp: Let_def split: option.splits)

lemma Stream_lines_Break:
  "Stream_lines um buf out = (Break, buf', out') \<Longrightarrow> buf' = []"
proof (induction buf arbitrary: out rule: length_induct)
  case (1 buf)
  show ?case
  proof (cases "CHR 0x0A \<in> set buf")
    case False
    with 1(2) show ?thesis by (simp add: Stream_lines_eof)
  next
    case True
    then obtain l rest where buf: "buf = l @ CHR 0x0A # rest" and l: "CHR 0x0A \<notin> set l"
      by (auto dest: split_list_first)
    from Stream_lines_step [OF l, of um rest out] 1(2) obtain out1
      where "Stream_lines um rest out1 = (Break, buf', out')"
      unfolding buf by auto
    moreover have "length rest < length buf"
      by (simp add: buf)
    ultimately show ?thesis
      using 1(1) by blast
  qed
qed

text \<open>
  C2, as the code has it. The decoder does not keep the bytes that follow the last newline
  of a chunk: \<^verbatim>\<open>ReadString\<close> hands them over with \<^verbatim>\<open>io.EOF\<close> and empties the buffer, and
  the worker drops them when it leaves the inner loop. So a chunk without a newline is
  forgotten, and the stream goes on as if it had never arrived; and whenever the inner
  loop is left by \<^verbatim>\<open>break\<close> the buffer is empty.
\<close>

theorem Stream_partial_line_dropped:
  assumes "CHR 0x0A \<notin> set p"
  shows "Stream um (StreamRecv (Some p) # evs) = Stream um evs
       \<and> Stream_loop um (StreamRecv (Some p) # evs) [] out = Stream_loop um evs [] out
       \<and> (Stream_lines um buf out = (Break, buf', out') \<longrightarrow> buf' = [])"
  using assms by (auto simp: Stream_def Stream_lines_eof dest: Stream_lines_Break)

theorem Stream_partial_line_dropped_witness:
  \<open>Stream decodeStreamResponse
     [StreamRecv (Some ''data: {"choices":[{"delta":{"content":"Hel''),
      StreamRecv (Some (''lo"}}]}'' @ [CHR 0x0A, CHR 0x0A]))] =
   Stream decodeStreamResponse [StreamRecv (Some (''lo"}}]}'' @ [CHR 0x0A, CHR 0x0A]))]\<close>
proof -
  have \<open>CHR 0x0A \<notin> set ''data: {"choices":[{"delta":{"content":"Hel''\<close>
    by simp
  from Stream_partial_line_dropped [OF this, THEN conjunct1]
  show ?thesis .
qed

text \<open>
  C2 as it is stated fails on its own example: after the two chunks no fragment has been
  sent, whereas the same bytes in one chunk give the fragment \<^verbatim>\<open>Hello\<close>.
\<close>

theorem Stream_split_line_lost:
  \<open>Stream decodeStreamResponse
     [StreamRecv (Some ''data: {"choices":[{"delta":{"content":"Hel''),
      StreamRecv (Some (''lo"}}]}'' @ [CHR 0x0A, CHR 0x0A]))] =
     \<lparr>sent = [], errs_sent = [], finished = False\<rparr>
   \<and> Stream decodeStreamResponse
     [StreamRecv (Some (''data: {"choices":[{"delta":{"content":"Hel'' @ ''lo"}}]}''
        @ [CHR 0x0A, CHR 0x0A]))] =
     \<lparr>sent = [\<lparr>Role = RoleAssistant, Content = ''Hello''\<rparr>], errs_sent = [], finished = False\<rparr>\<close>
  by code_simp







end
